theory Spec2Isabelle
  imports Complex_Main "HOL-Library.Word" "HOL-Library.FSet" "HOL-Library.AList"
begin

section \<open>Scalars\<close>

type_synonym u8 = "8 word"
type_synonym u16 = "16 word"
type_synonym u32 = "32 word"

section \<open>Actions and their validation\<close>

text \<open>
  Modelled from the spec: the classes of the actions (Action.h, ActionDelay.h,
  ActionSpawn.h, ActionZoneChange.h, ActionZoneInstance.h) are generated and not among
  the sources; the specification describes an action as a closed, polymorphic set of
  variants, each tagged with an execution-source-context enum (ENEMIES, SOURCE, other);
  some variants (DELAY, SPAWN) own nested child action lists. The enumerations list
  the values that ServerDataManager.cpp names; one further constructor stands for
  every value the code only reaches through a \<^verbatim>\<open>default:\<close> label or the negative
  side of a comparison.
\<close>

datatype ActionType_t =
    ADD_REMOVE_ITEMS | ADD_REMOVE_STATUS | CREATE_LOOT | DELAY | DISPLAY_MESSAGE
  | GRANT_SKILLS | GRANT_XP | PLAY_BGM | PLAY_SOUND_EFFECT | RUN_SCRIPT | SET_HOMEPOINT
  | SET_NPC_STATE | SPAWN | SPECIAL_DIRECTION | STAGE_EFFECT | START_EVENT | UPDATE_COMP
  | UPDATE_FLAG | UPDATE_LNC | UPDATE_POINTS | UPDATE_QUEST | UPDATE_ZONE_FLAGS
  | ZONE_CHANGE | ZONE_INSTANCE | OTHER_ACTION_TYPE

datatype SourceContext_t = ENEMIES | SOURCE | OTHER_CONTEXT

datatype Mode_t = JOIN | CLAN_JOIN | TEAM_JOIN | TEAM_PVP | OTHER_MODE

text \<open>
  An action object is of one class, and the class fixes the action type: ActionDelay
  owns a nested action list, ActionSpawn owns the defeat actions, ActionZoneChange has a
  zone ID, ActionZoneInstance a mode. Every other class is a leaf for the validation and
  carries only its type and source context.
\<close>

datatype LeafType_t =
    L_ADD_REMOVE_ITEMS | L_ADD_REMOVE_STATUS | L_CREATE_LOOT | L_DISPLAY_MESSAGE
  | L_GRANT_SKILLS | L_GRANT_XP | L_PLAY_BGM | L_PLAY_SOUND_EFFECT | L_RUN_SCRIPT
  | L_SET_HOMEPOINT | L_SET_NPC_STATE | L_SPECIAL_DIRECTION | L_STAGE_EFFECT
  | L_START_EVENT | L_UPDATE_COMP | L_UPDATE_FLAG | L_UPDATE_LNC | L_UPDATE_POINTS
  | L_UPDATE_QUEST | L_UPDATE_ZONE_FLAGS | L_OTHER

datatype Action =
    ActionDelay SourceContext_t "Action list"
  | ActionSpawn SourceContext_t "Action list"
  | ActionZoneChange SourceContext_t u32
  | ActionZoneInstance SourceContext_t Mode_t
  | ActionLeaf LeafType_t SourceContext_t

fun leaf_type :: "LeafType_t \<Rightarrow> ActionType_t" where
  "leaf_type L_ADD_REMOVE_ITEMS = ADD_REMOVE_ITEMS"
| "leaf_type L_ADD_REMOVE_STATUS = ADD_REMOVE_STATUS"
| "leaf_type L_CREATE_LOOT = CREATE_LOOT"
| "leaf_type L_DISPLAY_MESSAGE = DISPLAY_MESSAGE"
| "leaf_type L_GRANT_SKILLS = GRANT_SKILLS"
| "leaf_type L_GRANT_XP = GRANT_XP"
| "leaf_type L_PLAY_BGM = PLAY_BGM"
| "leaf_type L_PLAY_SOUND_EFFECT = PLAY_SOUND_EFFECT"
| "leaf_type L_RUN_SCRIPT = RUN_SCRIPT"
| "leaf_type L_SET_HOMEPOINT = SET_HOMEPOINT"
| "leaf_type L_SET_NPC_STATE = SET_NPC_STATE"
| "leaf_type L_SPECIAL_DIRECTION = SPECIAL_DIRECTION"
| "leaf_type L_STAGE_EFFECT = STAGE_EFFECT"
| "leaf_type L_START_EVENT = START_EVENT"
| "leaf_type L_UPDATE_COMP = UPDATE_COMP"
| "leaf_type L_UPDATE_FLAG = UPDATE_FLAG"
| "leaf_type L_UPDATE_LNC = UPDATE_LNC"
| "leaf_type L_UPDATE_POINTS = UPDATE_POINTS"
| "leaf_type L_UPDATE_QUEST = UPDATE_QUEST"
| "leaf_type L_UPDATE_ZONE_FLAGS = UPDATE_ZONE_FLAGS"
| "leaf_type L_OTHER = OTHER_ACTION_TYPE"

fun GetActionType :: "Action \<Rightarrow> ActionType_t" where
  "GetActionType (ActionDelay c acts) = DELAY"
| "GetActionType (ActionSpawn c acts) = SPAWN"
| "GetActionType (ActionZoneChange c z) = ZONE_CHANGE"
| "GetActionType (ActionZoneInstance c m) = ZONE_INSTANCE"
| "GetActionType (ActionLeaf t c) = leaf_type t"

fun GetSourceContext :: "Action \<Rightarrow> SourceContext_t" where
  "GetSourceContext (ActionDelay c acts) = c"
| "GetSourceContext (ActionSpawn c acts) = c"
| "GetSourceContext (ActionZoneChange c z) = c"
| "GetSourceContext (ActionZoneInstance c m) = c"
| "GetSourceContext (ActionLeaf t c) = c"

text \<open>
  The diagnostics sink. A warning keeps the source label it was logged with, an error
  the action type and the label.
\<close>

datatype LogEntry =
    MidSetZoneChangeWarning string
  | PlayerRequiredError ActionType_t string

text \<open>The first switch of the loop body: does the action end the set for its player?\<close>

fun zone_change_warn :: "Action \<Rightarrow> bool" where
  "zone_change_warn (ActionZoneChange c zoneID) = (zoneID \<noteq> 0)"
| "zone_change_warn (ActionZoneInstance c mode) =
     (case mode of JOIN \<Rightarrow> True | CLAN_JOIN \<Rightarrow> True | TEAM_JOIN \<Rightarrow> True
        | TEAM_PVP \<Rightarrow> True | OTHER_MODE \<Rightarrow> False)"
| "zone_change_warn (ActionDelay c acts) = False"
| "zone_change_warn (ActionSpawn c acts) = False"
| "zone_change_warn (ActionLeaf t c) = False"

text \<open>The case labels of the second switch that share the \<^verbatim>\<open>if(autoCtx)\<close> body.\<close>

fun player_required :: "ActionType_t \<Rightarrow> bool" where
  "player_required ADD_REMOVE_ITEMS = True"
| "player_required DISPLAY_MESSAGE = True"
| "player_required GRANT_SKILLS = True"
| "player_required GRANT_XP = True"
| "player_required PLAY_BGM = True"
| "player_required PLAY_SOUND_EFFECT = True"
| "player_required SET_HOMEPOINT = True"
| "player_required SPECIAL_DIRECTION = True"
| "player_required STAGE_EFFECT = True"
| "player_required UPDATE_COMP = True"
| "player_required UPDATE_FLAG = True"
| "player_required UPDATE_LNC = True"
| "player_required UPDATE_QUEST = True"
| "player_required ZONE_CHANGE = True"
| "player_required ZONE_INSTANCE = True"
| "player_required ADD_REMOVE_STATUS = False"
| "player_required CREATE_LOOT = False"
| "player_required RUN_SCRIPT = False"
| "player_required SET_NPC_STATE = False"
| "player_required START_EVENT = False"
| "player_required UPDATE_POINTS = False"
| "player_required UPDATE_ZONE_FLAGS = False"
| "player_required DELAY = False"
| "player_required SPAWN = False"
| "player_required OTHER_ACTION_TYPE = False"

definition is_auto_source :: "Action \<Rightarrow> bool" where
  "is_auto_source action =
     (GetSourceContext action = ENEMIES \<or> GetSourceContext action = SOURCE)"

text \<open>
  ValidateActions: the loop over the list, with the counters \<^verbatim>\<open>count\<close> and
  \<^verbatim>\<open>current\<close> of the source as arguments. The result is the returned flag and
  the log entries in the order they are emitted. A nested call (DELAY, SPAWN) starts a
  fresh loop on the nested list, with the extended label, the recomputed context and
  the default \<^verbatim>\<open>inEvent = false\<close>.
\<close>

function ValidateActions_loop ::
  "nat \<Rightarrow> nat \<Rightarrow> string \<Rightarrow> bool \<Rightarrow> bool \<Rightarrow> Action list \<Rightarrow> bool \<times> LogEntry list" where
  "ValidateActions_loop count cur source autoContext inEvent [] = (True, [])"
| "ValidateActions_loop count cur source autoContext inEvent (action # rest) =
     (let current = cur + 1;
          warned = (if current \<noteq> count \<and> \<not> inEvent \<and> zone_change_warn action
                    then [MidSetZoneChangeWarning source] else []);
          autoCtx = (autoContext \<and> is_auto_source action)
      in case (case action of
                 ActionDelay c acts \<Rightarrow>
                   ValidateActions_loop (length acts) 0 (source @ '' => Delay Actions'')
                     autoCtx False acts
               | ActionSpawn c acts \<Rightarrow>
                   ValidateActions_loop (length acts) 0 (source @ '' => Defeat Actions'')
                     autoCtx False acts
               | ActionZoneChange c z \<Rightarrow>
                   (if autoCtx then (False, [PlayerRequiredError ZONE_CHANGE source])
                    else (True, []))
               | ActionZoneInstance c m \<Rightarrow>
                   (if autoCtx then (False, [PlayerRequiredError ZONE_INSTANCE source])
                    else (True, []))
               | ActionLeaf t c \<Rightarrow>
                   (if player_required (leaf_type t) \<and> autoCtx
                    then (False, [PlayerRequiredError (leaf_type t) source])
                    else (True, [])))
         of (ok, logged) \<Rightarrow>
           if \<not> ok then (False, warned @ logged)
           else (case ValidateActions_loop count current source autoContext inEvent rest
                 of (res, later) \<Rightarrow> (res, warned @ logged @ later)))"
  by pat_completeness auto
termination
  by (relation "measure (\<lambda>(count, cur, source, autoContext, inEvent, actions).
        size_list size actions)") auto

definition ValidateActions ::
  "Action list \<Rightarrow> string \<Rightarrow> bool \<Rightarrow> bool \<Rightarrow> bool \<times> LogEntry list" where
  "ValidateActions actions source autoContext inEvent =
     ValidateActions_loop (length actions) 0 source autoContext inEvent actions"

text \<open>
  The reading of the validation's contract, to compare the loop with. An action is
  reachable from a call on a list with the flag \<open>autoContext\<close> when it stands in
  the list or, through any number of DELAY action lists and SPAWN defeat-action lists,
  below it; \<open>reaches autoContext actions eff a\<close> also gives the effective
  auto-context \<open>eff\<close> of the reached action: the flag of the call that meets it,
  and its own source context being ENEMIES or SOURCE. The flag of a nested call is the
  effective auto-context of the action that owns the nested list.
\<close>

inductive reaches :: "bool \<Rightarrow> Action list \<Rightarrow> bool \<Rightarrow> Action \<Rightarrow> bool" where
  reaches_here: "a \<in> set actions \<Longrightarrow> reaches autoContext actions (autoContext \<and> is_auto_source a) a"
| reaches_delay: "ActionDelay c nested \<in> set actions \<Longrightarrow>
     reaches (autoContext \<and> is_auto_source (ActionDelay c nested)) nested eff a \<Longrightarrow>
     reaches autoContext actions eff a"
| reaches_spawn: "ActionSpawn c nested \<in> set actions \<Longrightarrow>
     reaches (autoContext \<and> is_auto_source (ActionSpawn c nested)) nested eff a \<Longrightarrow>
     reaches autoContext actions eff a"

definition context_restricted_types :: "ActionType_t set" where
  "context_restricted_types = {ADD_REMOVE_ITEMS, DISPLAY_MESSAGE, GRANT_SKILLS, GRANT_XP,
     PLAY_BGM, PLAY_SOUND_EFFECT, SET_HOMEPOINT, SPECIAL_DIRECTION, STAGE_EFFECT,
     UPDATE_COMP, UPDATE_FLAG, UPDATE_LNC, UPDATE_QUEST, ZONE_CHANGE, ZONE_INSTANCE}"

definition fatal_violation :: "bool \<Rightarrow> Action list \<Rightarrow> bool" where
  "fatal_violation autoContext actions =
     (\<exists>eff a. reaches autoContext actions eff a \<and>
        GetActionType a \<in> context_restricted_types \<and> eff)"

definition terminal_action :: "Action \<Rightarrow> bool" where
  "terminal_action a =
     ((\<exists>c z. a = ActionZoneChange c z \<and> z \<noteq> 0) \<or>
      (\<exists>c. a = ActionZoneInstance c JOIN \<or> a = ActionZoneInstance c CLAN_JOIN \<or>
           a = ActionZoneInstance c TEAM_JOIN \<or> a = ActionZoneInstance c TEAM_PVP))"

definition mid_warning :: "nat \<Rightarrow> nat \<Rightarrow> bool \<Rightarrow> string \<Rightarrow> Action \<Rightarrow> LogEntry list" where
  "mid_warning n cur ie src a =
     (if Suc cur \<noteq> n \<and> \<not> ie \<and> zone_change_warn a then [MidSetZoneChangeWarning src] else [])"

fun entry_label :: "LogEntry \<Rightarrow> string" where
  "entry_label (MidSetZoneChangeWarning s) = s"
| "entry_label (PlayerRequiredError t s) = s"


section \<open>Definition objects\<close>

text \<open>
  Modelled from the spec: the classes of the definition objects are generated from
  schemas that are not among the sources. The records hold the members that
  ServerDataManager reads or writes, under the names of their accessors, with the shape
  the specification gives them: a zone holds keyed maps of Spawn, SpawnGroup (itself
  holding a set of spawn IDs plus defeat/spawn action lists), SpawnLocationGroup
  (holding a set of SpawnGroup IDs), Spot, ordered lists of NPC and Object placements
  (each optionally tagged with a spot ID and always having float X/Y coordinates and a
  numeric content ID), a list of Triggers, and scalar sets; a partial has the same
  shape plus the auto-apply flag and the set of dynamic map IDs; a zone instance is a
  pair of index-aligned sequences plus a lobby zone ID.

  A generated map member (\<^verbatim>\<open>std::unordered_map\<close>) is an association list with
  distinct keys: the order of the list is the order in which a range-for visits the
  map, which C++ leaves to the implementation. The spawns of a spawn group are such a
  map, from the spawn ID to a count that plays no role here. A generated set member and
  every \<^verbatim>\<open>std::set<uint32_t>\<close> is a finite set, visited in ascending order.
  Coordinates are \<^verbatim>\<open>float\<close> in the source and real numbers here: the rounding of a
  float subtraction is not modelled.
\<close>

datatype Category_t = BOSS | OTHER_CATEGORY

record Spawn =
  EnemyType :: u32
  BossGroup :: u32
  Category :: Category_t

record SpawnGroup =
  sg_ID :: u32
  sg_Spawns :: "(u32 \<times> u16) list"
  DefeatActions :: "Action list"
  SpawnActions :: "Action list"

record SpawnLocationGroup =
  GroupIDs :: "u32 fset"

text \<open>ServerNPC and ServerObject: the members the manager uses are the same.\<close>

record ServerObjectBase =
  obj_ID :: u32
  SpotID :: u32
  X :: real
  Y :: real
  obj_Actions :: "Action list"

type_synonym ServerNPC = ServerObjectBase
type_synonym ServerObject = ServerObjectBase

record ServerZoneSpot =
  spot_Actions :: "Action list"
  LeaveActions :: "Action list"

record PlasmaSpawn =
  SuccessActions :: "Action list"
  FailActions :: "Action list"

datatype Trigger_t =
    ON_DEATH | ON_DIASPORA_BASE_CAPTURE | ON_FLAG_SET | ON_PVP_BASE_CAPTURE
  | ON_PVP_COMPLETE | ON_REVIVAL | ON_ZONE_IN | ON_ZONE_OUT | OTHER_TRIGGER

record ServerZoneTrigger =
  Trigger :: Trigger_t
  trigger_Actions :: "Action list"

record ServerZone =
  zone_ID :: u32
  zone_DynamicMapID :: u32
  DropSetIDs :: "u32 fset"
  SkillWhitelist :: "u32 fset"
  SkillBlacklist :: "u32 fset"
  NPCs :: "ServerNPC list"
  Objects :: "ServerObject list"
  Spawns :: "(u32 \<times> Spawn) list"
  SpawnGroups :: "(u32 \<times> SpawnGroup) list"
  SpawnLocationGroups :: "(u32 \<times> SpawnLocationGroup) list"
  Spots :: "(u32 \<times> ServerZoneSpot) list"
  PlasmaSpawns :: "(u32 \<times> PlasmaSpawn) list"
  Triggers :: "ServerZoneTrigger list"

record ServerZonePartial =
  prt_ID :: u32
  AutoApply :: bool
  prt_DynamicMapIDs :: "u32 fset"
  prt_DropSetIDs :: "u32 fset"
  prt_SkillWhitelist :: "u32 fset"
  prt_SkillBlacklist :: "u32 fset"
  prt_NPCs :: "ServerNPC list"
  prt_Objects :: "ServerObject list"
  prt_Spawns :: "(u32 \<times> Spawn) list"
  prt_SpawnGroups :: "(u32 \<times> SpawnGroup) list"
  prt_SpawnLocationGroups :: "(u32 \<times> SpawnLocationGroup) list"
  prt_Spots :: "(u32 \<times> ServerZoneSpot) list"
  prt_Triggers :: "ServerZoneTrigger list"

record ServerZoneInstance =
  inst_ID :: u32
  LobbyID :: u32
  ZoneIDs :: "u32 list"
  inst_DynamicMapIDs :: "u32 list"

text \<open>The accessors of a generated map member.\<close>

definition KeyExists :: "'k \<Rightarrow> ('k \<times> 'v) list \<Rightarrow> bool" where
  "KeyExists k m = (map_of m k \<noteq> None)"

definition SetEntry :: "'k \<Rightarrow> 'v \<Rightarrow> ('k \<times> 'v) list \<Rightarrow> ('k \<times> 'v) list" where
  "SetEntry k v m = AList.update k v m"

definition RemoveEntry :: "'k \<Rightarrow> ('k \<times> 'v) list \<Rightarrow> ('k \<times> 'v) list" where
  "RemoveEntry k m = AList.delete k m"

text \<open>
  The indexed getter of a generated list member. What the generated code does with an
  index past the end is not in the sources at hand: the read has no value then.
\<close>

definition GetAt :: "'a list \<Rightarrow> nat \<Rightarrow> 'a option" where
  "GetAt xs i = (if i < length xs then Some (xs ! i) else None)"

section \<open>The manager and the objects it points to\<close>

text \<open>
  Zones are held through \<^verbatim>\<open>std::shared_ptr<objects::ServerZone>\<close>, and whether two
  pointers are the same object matters: a zone pointer is an address, and the objects
  live in a store that hands out fresh addresses. Every zone the manager holds lies
  below \<open>next_free\<close>. The other objects are values: the manager changes a spawn
  group or a spawn location group only on a copy it has just made.
\<close>

record zone_store =
  objs :: "nat \<Rightarrow> ServerZone"
  next_free :: nat

definition make_shared :: "zone_store \<Rightarrow> ServerZone \<Rightarrow> nat \<times> zone_store" where
  "make_shared h v =
     (next_free h, h\<lparr>objs := (objs h)(next_free h := v), next_free := Suc (next_free h)\<rparr>)"

text \<open>
  Modelled from the spec: the objects of the other kinds, whose classes are generated
  as well, with the members their loaders read. An event of type PERFORM_ACTIONS is an
  EventPerformActions and has actions. A zone instance variant carries a
  variable-length list of time points, of which the loader reads the number; one that
  is a PvPInstanceVariant additionally carries a match type and an optional default
  backing instance ID. A shop keeps the number of its tabs; a drop set has an ID plus
  an optional gift-box ID.
\<close>

datatype EventType_t = PERFORM_ACTIONS | OTHER_EVENT_TYPE

record Event =
  event_ID :: string
  EventType :: EventType_t
  event_Actions :: "Action list"

datatype InstanceType_t =
    TIME_TRIAL | PVP | DEMON_ONLY | DIASPORA | MISSION | PENTALPHA | OTHER_INSTANCE_TYPE

datatype MatchType_t = CUSTOM | STANDARD_MATCH u8

record PvPInstanceVariant =
  DefaultInstanceID :: u32
  SpecialMode :: bool
  MatchType :: MatchType_t

record ServerZoneInstanceVariant =
  variant_ID :: u32
  InstanceType :: InstanceType_t
  TimePointsCount :: nat
  SubID :: u8
  pvpVar :: "PvPInstanceVariant option"

datatype ShopType_t = COMP_SHOP | OTHER_SHOP_TYPE

record ServerShop =
  ShopID :: u32
  TabsCount :: nat
  shop_Type :: ShopType_t

record AILogicGroup =
  aig_ID :: u16

record DemonPresent =
  present_ID :: u32

record DemonQuestReward =
  reward_ID :: u32

record DropSet =
  dropset_ID :: u32
  GiftBoxID :: u32

record ServerScript =
  script_Name :: string
  script_Path :: string
  script_Source :: string
  script_Type :: string

record ServerDataManager =
  mZoneData :: "u32 \<rightharpoonup> (u32 \<times> nat) list"
  mFieldZoneIDs :: "(u32 \<times> u32) list"
  mZoneInstanceData :: "u32 \<rightharpoonup> ServerZoneInstance"
  mZoneInstanceVariantData :: "u32 \<rightharpoonup> ServerZoneInstanceVariant"
  mStandardPvPVariantIDs :: "u8 \<rightharpoonup> u32 fset"
  mZonePartialData :: "u32 \<rightharpoonup> ServerZonePartial"
  mZonePartialMap :: "u32 \<rightharpoonup> u32 fset"
  mEventData :: "string \<rightharpoonup> Event"
  mShopData :: "u32 \<rightharpoonup> ServerShop"
  mCompShopIDs :: "u32 list"
  mAILogicGroups :: "u16 \<rightharpoonup> AILogicGroup"
  mDemonPresentData :: "u32 \<rightharpoonup> DemonPresent"
  mDemonQuestRewardData :: "u32 \<rightharpoonup> DemonQuestReward"
  mDropSetData :: "u32 \<rightharpoonup> DropSet"
  mGiftDropSetLookup :: "u32 \<rightharpoonup> u32"
  mScripts :: "string \<rightharpoonup> ServerScript"
  mAIScripts :: "string \<rightharpoonup> ServerScript"


text \<open>
  Modelled from the spec: the definition manager is a collaborator outside the sources
  at hand, which resolves the lookups needed during validation (does this numeric
  zone type or enemy type exist). The record holds the two lookups the manager
  makes: the basic type of a known zone and whether an enemy type has devil data. A
  null \<^verbatim>\<open>DefinitionManager*\<close> is \<open>None\<close>.
\<close>

record DefinitionManager =
  dm_ZoneType :: "u32 \<rightharpoonup> u8"
  dm_DevilKnown :: "u32 \<Rightarrow> bool"

section \<open>Zone instances\<close>

definition GetZoneInstanceData :: "ServerDataManager \<Rightarrow> u32 \<Rightarrow> ServerZoneInstance option" where
  "GetZoneInstanceData mgr id' = mZoneInstanceData mgr id'"

text \<open>
  ExistsInInstance: the loop over \<^verbatim>\<open>i < ZoneIDsCount()\<close> with its early return, on
  the list of indices. The dynamic map ID at \<open>i\<close> is read only when the zone ID
  matches and the wanted dynamic map ID is not 0, as \<^verbatim>\<open>||\<close> short-circuits.
\<close>

primrec ExistsInInstance_loop ::
  "ServerZoneInstance \<Rightarrow> u32 \<Rightarrow> u32 \<Rightarrow> nat list \<Rightarrow> bool option" where
  "ExistsInInstance_loop instDef zoneID dynamicMapID [] = Some False"
| "ExistsInInstance_loop instDef zoneID dynamicMapID (i # rest) =
     (case GetAt (ZoneIDs instDef) i of
        None \<Rightarrow> None
      | Some z \<Rightarrow>
          if z = zoneID then
            (if dynamicMapID = 0 then Some True
             else (case GetAt (inst_DynamicMapIDs instDef) i of
                     None \<Rightarrow> None
                   | Some d \<Rightarrow>
                       if d = dynamicMapID then Some True
                       else ExistsInInstance_loop instDef zoneID dynamicMapID rest))
          else ExistsInInstance_loop instDef zoneID dynamicMapID rest)"

definition ExistsInInstance :: "ServerDataManager \<Rightarrow> u32 \<Rightarrow> u32 \<Rightarrow> u32 \<Rightarrow> bool option" where
  "ExistsInInstance mgr instanceID zoneID dynamicMapID =
     (case GetZoneInstanceData mgr instanceID of
        None \<Rightarrow> Some False
      | Some instDef \<Rightarrow>
          ExistsInInstance_loop instDef zoneID dynamicMapID [0..<length (ZoneIDs instDef)])"

text \<open>
  \<^verbatim>\<open>mZoneData.find(zoneID) == end || mZoneData[zoneID].find(dynamicMapID) == end\<close>,
  negated: the pair is a registered zone.
\<close>

definition zone_registered :: "ServerDataManager \<Rightarrow> u32 \<Rightarrow> u32 \<Rightarrow> bool" where
  "zone_registered mgr zoneID dynamicMapID =
     (case mZoneData mgr zoneID of None \<Rightarrow> False | Some inner \<Rightarrow> KeyExists dynamicMapID inner)"

text \<open>
  The loop of LoadObject<ServerZoneInstance> over the parallel lists: \<open>False\<close> is
  the early \<^verbatim>\<open>return false\<close>. It runs after the two counts were found equal, so both
  reads are in range.
\<close>

primrec zones_resolve_loop :: "ServerDataManager \<Rightarrow> ServerZoneInstance \<Rightarrow> nat list \<Rightarrow> bool" where
  "zones_resolve_loop mgr inst [] = True"
| "zones_resolve_loop mgr inst (i # rest) =
     (case (GetAt (ZoneIDs inst) i, GetAt (inst_DynamicMapIDs inst) i) of
        (Some zoneID, Some dynamicMapID) \<Rightarrow>
          if \<not> zone_registered mgr zoneID dynamicMapID then False
          else zones_resolve_loop mgr inst rest
      | _ \<Rightarrow> False)"

text \<open>
  LoadObject<ServerZoneInstance>. The XML node is given by what the document loader makes
  of it: \<open>None\<close> when \<^verbatim>\<open>inst->Load\<close> fails, the loaded object otherwise. The
  result is the returned flag and the manager afterwards.
\<close>

definition LoadObject_ServerZoneInstance ::
  "ServerDataManager \<Rightarrow> ServerZoneInstance option \<Rightarrow> DefinitionManager option
     \<Rightarrow> bool \<times> ServerDataManager" where
  "LoadObject_ServerZoneInstance mgr objNode definitionManager =
     (case objNode of
        None \<Rightarrow> (False, mgr)
      | Some inst \<Rightarrow>
          let id' = inst_ID inst in
          if (case definitionManager of
                Some dm \<Rightarrow> dm_ZoneType dm (LobbyID inst) = None
              | None \<Rightarrow> False)
          then (True, mgr)
          else
            let zoneIDCount = length (ZoneIDs inst) in
            if zoneIDCount \<noteq> length (inst_DynamicMapIDs inst) then (False, mgr)
            else if \<not> zones_resolve_loop mgr inst [0..<zoneIDCount] then (False, mgr)
            else if mZoneInstanceData mgr id' \<noteq> None then (False, mgr)
            else (True, mgr\<lparr>mZoneInstanceData := (mZoneInstanceData mgr)(id' \<mapsto> inst)\<rparr>))"


section \<open>Zone partials and the composition of a zone\<close>

text \<open>
  The two predicates handed to \<^verbatim>\<open>remove_if\<close> in the static ApplyZonePartial:
  \<open>npc\<close> (\<open>obj\<close>) is the entry of the partial, \<open>oNPC\<close> (\<open>oObj\<close>) an
  entry already in the list.
\<close>

definition npc_remove_if :: "ServerNPC \<Rightarrow> ServerNPC \<Rightarrow> bool" where
  "npc_remove_if npc oNPC =
     ((SpotID npc \<noteq> 0 \<and> SpotID oNPC = SpotID npc) \<or>
      (\<not> SpotID npc \<noteq> 0 \<and> \<not> SpotID oNPC \<noteq> 0 \<and>
         \<bar>X oNPC - X npc\<bar> < 10 \<and> \<bar>Y oNPC - Y npc\<bar> < 10))"

definition obj_remove_if :: "ServerObject \<Rightarrow> ServerObject \<Rightarrow> bool" where
  "obj_remove_if obj oObj =
     ((SpotID obj \<noteq> 0 \<and> SpotID oObj = SpotID obj) \<or>
      (\<not> SpotID obj \<noteq> 0 \<and> \<not> SpotID oObj \<noteq> 0 \<and>
         \<bar>X oObj - X obj\<bar> < 10 \<and> \<bar>Y oObj - Y obj\<bar> < 10))"

text \<open>One round of the loop that builds the new NPC list, and one of the object loop.\<close>

definition npc_round :: "bool \<Rightarrow> ServerNPC list \<Rightarrow> ServerNPC \<Rightarrow> ServerNPC list" where
  "npc_round positionReplace npcs npc =
     (let npcs1 = (if positionReplace then filter (\<lambda>oNPC. \<not> npc_remove_if npc oNPC) npcs
                   else npcs)
      in if obj_ID npc \<noteq> 0 then npcs1 @ [npc] else npcs1)"

definition obj_round :: "bool \<Rightarrow> ServerObject list \<Rightarrow> ServerObject \<Rightarrow> ServerObject list" where
  "obj_round positionReplace objects obj =
     (let objects1 = (if positionReplace
                      then filter (\<lambda>oObj. \<not> obj_remove_if obj oObj) objects
                      else objects)
      in if obj_ID obj \<noteq> 0 then objects1 @ [obj] else objects1)"

text \<open>
  The static ApplyZonePartial(zone, partial, positionReplace). It changes the zone the
  pointer names; here it maps the zone's value to the new one.
\<close>

definition ApplyZonePartial_static ::
  "ServerZone \<Rightarrow> ServerZonePartial \<Rightarrow> bool \<Rightarrow> ServerZone" where
  "ApplyZonePartial_static zone partial positionReplace =
     zone\<lparr>DropSetIDs := DropSetIDs zone |\<union>| prt_DropSetIDs partial,
          SkillWhitelist := SkillWhitelist zone |\<union>| prt_SkillWhitelist partial,
          SkillBlacklist := SkillBlacklist zone |\<union>| prt_SkillBlacklist partial,
          NPCs := foldl (npc_round positionReplace) (NPCs zone) (prt_NPCs partial),
          Objects := foldl (obj_round positionReplace) (Objects zone) (prt_Objects partial),
          Spawns := foldl (\<lambda>m sPair. SetEntry (fst sPair) (snd sPair) m)
                      (Spawns zone) (prt_Spawns partial),
          SpawnGroups := foldl (\<lambda>m sgPair. SetEntry (fst sgPair) (snd sgPair) m)
                      (SpawnGroups zone) (prt_SpawnGroups partial),
          SpawnLocationGroups := foldl (\<lambda>m slgPair. SetEntry (fst slgPair) (snd slgPair) m)
                      (SpawnLocationGroups zone) (prt_SpawnLocationGroups partial),
          Spots := foldl (\<lambda>m spotPair. SetEntry (fst spotPair) (snd spotPair) m)
                      (Spots zone) (prt_Spots partial),
          Triggers := Triggers zone @ prt_Triggers partial\<rparr>"

text \<open>
  The lookup that opens GetZoneData. An inner map is never empty in a manager filled by
  the loaders (an inner map is created together with its first zone); \<^verbatim>\<open>begin()\<close>
  of an empty one has no element to return, and the lookup gives the null pointer here.
\<close>

definition find_zone :: "ServerDataManager \<Rightarrow> u32 \<Rightarrow> u32 \<Rightarrow> nat option" where
  "find_zone mgr id' dynamicMapID =
     (case mZoneData mgr id' of
        None \<Rightarrow> None
      | Some inner \<Rightarrow>
          if dynamicMapID \<noteq> 0 then map_of inner dynamicMapID
          else (case inner of [] \<Rightarrow> None | first # others \<Rightarrow> Some (snd first)))"

definition GetZonePartialData :: "ServerDataManager \<Rightarrow> u32 \<Rightarrow> ServerZonePartial option" where
  "GetZonePartialData mgr id' = mZonePartialData mgr id'"

text \<open>
  ApplyZonePartial(zone, partialID). Its call \<^verbatim>\<open>GetZoneData(id, dynamicMapID, false)\<close>
  applies no partial and is the lookup alone. The result is the returned flag and the
  store, in which the zone the pointer names has been changed on success.
\<close>

definition ApplyZonePartial ::
  "ServerDataManager \<Rightarrow> zone_store \<Rightarrow> nat option \<Rightarrow> u32 \<Rightarrow> bool \<times> zone_store" where
  "ApplyZonePartial mgr h zone partialID =
     (case zone of
        None \<Rightarrow> (False, h)
      | Some z \<Rightarrow>
          if partialID = 0 then (False, h)
          else
            let id' = zone_ID (objs h z);
                dynamicMapID = zone_DynamicMapID (objs h z);
                originDef = find_zone mgr id' dynamicMapID
            in if originDef = Some z then (False, h)
               else (case GetZonePartialData mgr partialID of
                       None \<Rightarrow> (False, h)
                     | Some partial \<Rightarrow>
                         (True, h\<lparr>objs := (objs h)
                                   (z := ApplyZonePartial_static (objs h z) partial True)\<rparr>)))"

text \<open>The loop that gathers and verifies the extra partials, one round.\<close>

definition gather_extra :: "ServerDataManager \<Rightarrow> ServerZone \<Rightarrow> u32 fset \<Rightarrow> u32 \<Rightarrow> u32 fset" where
  "gather_extra mgr zone partialIDs partialID =
     (case GetZonePartialData mgr partialID of
        None \<Rightarrow> partialIDs
      | Some partial \<Rightarrow>
          if \<not> AutoApply partial \<and>
             (fcard (prt_DynamicMapIDs partial) = 0 \<or>
              zone_DynamicMapID zone |\<in>| prt_DynamicMapIDs partial)
          then finsert partialID partialIDs
          else partialIDs)"

text \<open>
  The loop that applies the partials to the copy: \<open>None\<close> is the early
  \<^verbatim>\<open>return nullptr\<close>.
\<close>

fun apply_partials ::
  "ServerDataManager \<Rightarrow> zone_store \<Rightarrow> nat \<Rightarrow> u32 list \<Rightarrow> zone_store option" where
  "apply_partials mgr h z [] = Some h"
| "apply_partials mgr h z (partialID # rest) =
     (case ApplyZonePartial mgr h (Some z) partialID of
        (False, h') \<Rightarrow> None
      | (True, h') \<Rightarrow> apply_partials mgr h' z rest)"

text \<open>
  The validation of the spawn information after the partials. The range-for visits the
  spawn groups the zone had when the loop began; \<open>sgRemoves\<close> grows as it goes.
\<close>

definition missingSpawns_of :: "ServerZone \<Rightarrow> SpawnGroup \<Rightarrow> u32 fset" where
  "missingSpawns_of zone sg =
     fset_of_list (filter (\<lambda>s. \<not> KeyExists s (Spawns zone)) (map fst (sg_Spawns sg)))"

definition RemoveSpawns :: "u32 \<Rightarrow> SpawnGroup \<Rightarrow> SpawnGroup" where
  "RemoveSpawns key sg = sg\<lparr>sg_Spawns := RemoveEntry key (sg_Spawns sg)\<rparr>"

definition sg_round :: "ServerZone \<times> u32 fset \<Rightarrow> u32 \<times> SpawnGroup \<Rightarrow> ServerZone \<times> u32 fset" where
  "sg_round st sgPair =
     (let zone = fst st; sgRemoves = snd st;
          missingSpawns = missingSpawns_of zone (snd sgPair)
      in if fcard missingSpawns > 0 then
           (if fcard missingSpawns < length (sg_Spawns (snd sgPair)) then
              (let sg = foldl (\<lambda>g remove. RemoveSpawns remove g) (snd sgPair)
                          (sorted_list_of_fset sgRemoves)
               in (zone\<lparr>SpawnGroups := SetEntry (fst sgPair) sg (SpawnGroups zone)\<rparr>,
                   sgRemoves))
            else (zone, finsert (fst sgPair) sgRemoves))
         else (zone, sgRemoves))"

definition missingGroups_of :: "ServerZone \<Rightarrow> SpawnLocationGroup \<Rightarrow> u32 fset" where
  "missingGroups_of zone slg =
     ffilter (\<lambda>sgID. \<not> KeyExists sgID (SpawnGroups zone)) (GroupIDs slg)"

definition RemoveGroupIDs :: "u32 \<Rightarrow> SpawnLocationGroup \<Rightarrow> SpawnLocationGroup" where
  "RemoveGroupIDs val slg = slg\<lparr>GroupIDs := GroupIDs slg |-| {|val|}\<rparr>"

definition slg_round ::
  "u32 fset \<Rightarrow> ServerZone \<times> u32 fset \<Rightarrow> u32 \<times> SpawnLocationGroup \<Rightarrow> ServerZone \<times> u32 fset" where
  "slg_round sgRemoves st slgPair =
     (let zone = fst st; slgRemoves = snd st;
          missingGroups = missingGroups_of zone (snd slgPair)
      in if fcard missingGroups > 0 then
           (if fcard missingGroups < fcard (GroupIDs (snd slgPair)) then
              (let slg = foldl (\<lambda>g remove. RemoveGroupIDs remove g) (snd slgPair)
                           (sorted_list_of_fset sgRemoves)
               in (zone\<lparr>SpawnLocationGroups :=
                          SetEntry (fst slgPair) slg (SpawnLocationGroups zone)\<rparr>,
                   slgRemoves))
            else (zone, finsert (fst slgPair) slgRemoves))
         else (zone, slgRemoves))"

definition validate_spawns :: "ServerZone \<Rightarrow> ServerZone" where
  "validate_spawns zone0 =
     (let st1 = foldl sg_round (zone0, {||}) (SpawnGroups zone0);
          sgRemoves = snd st1;
          zone1 = foldl (\<lambda>zone sgRemove.
                     zone\<lparr>SpawnGroups := RemoveEntry sgRemove (SpawnGroups zone)\<rparr>)
                   (fst st1) (sorted_list_of_fset sgRemoves);
          st2 = foldl (slg_round sgRemoves) (zone1, {||}) (SpawnLocationGroups zone1);
          slgRemoves = snd st2
      in foldl (\<lambda>zone slgRemove.
            zone\<lparr>SpawnLocationGroups := RemoveEntry slgRemove (SpawnLocationGroups zone)\<rparr>)
          (fst st2) (sorted_list_of_fset slgRemoves))"

text \<open>
  The partial IDs GetZoneData gathers for a zone: the auto-applied ones mapped to the
  zone's dynamic map ID, and the extra ones that pass the check.
\<close>

definition gather_partialIDs :: "ServerDataManager \<Rightarrow> ServerZone \<Rightarrow> u32 fset \<Rightarrow> u32 fset" where
  "gather_partialIDs mgr zone extraPartialIDs =
     (let auto = (case mZonePartialMap mgr (zone_DynamicMapID zone) of
                    Some ids \<Rightarrow> ids
                  | None \<Rightarrow> {||})
      in foldl (gather_extra mgr zone) auto (sorted_list_of_fset extraPartialIDs))"

text \<open>
  GetZoneData. The result is the returned pointer (\<open>None\<close> is the null pointer) and
  the store afterwards. On the early \<^verbatim>\<open>return nullptr\<close> the copy has no owner left
  and is gone: the store is the one before the call.
\<close>

definition GetZoneData ::
  "ServerDataManager \<Rightarrow> zone_store \<Rightarrow> u32 \<Rightarrow> u32 \<Rightarrow> bool \<Rightarrow> u32 fset
     \<Rightarrow> nat option \<times> zone_store" where
  "GetZoneData mgr h id' dynamicMapID applyPartials extraPartialIDs =
     (case find_zone mgr id' dynamicMapID of
        None \<Rightarrow> (None, h)
      | Some zone \<Rightarrow>
          if \<not> applyPartials then (Some zone, h)
          else
            let partialIDs = gather_partialIDs mgr (objs h zone) extraPartialIDs
            in if fcard partialIDs > 0 then
                 (case make_shared h (objs h zone) of
                    (copy, h1) \<Rightarrow>
                      (case apply_partials mgr h1 copy (sorted_list_of_fset partialIDs) of
                         None \<Rightarrow> (None, h)
                       | Some h2 \<Rightarrow>
                           (Some copy,
                            h2\<lparr>objs := (objs h2)(copy := validate_spawns (objs h2 copy))\<rparr>)))
               else (Some zone, h))"


section \<open>The contracts, as read from their wording\<close>

text \<open>
  The definitions of this section are not translations of code: each one writes down
  a condition in the words of the specification, to be compared with what the code
  computes.
\<close>

text \<open>
  A zone instance is skipped when a definition manager is given and it does not know
  the instance's lobby zone.
\<close>

definition lobby_unknown :: "DefinitionManager option \<Rightarrow> ServerZoneInstance \<Rightarrow> bool" where
  "lobby_unknown definitionManager inst =
     (\<exists>dm. definitionManager = Some dm \<and> dm_ZoneType dm (LobbyID inst) = None)"

text \<open>Every index-aligned (zoneID, dynamicMapID) pair is a zone registered in the store.\<close>

definition pairs_resolve :: "ServerDataManager \<Rightarrow> ServerZoneInstance \<Rightarrow> bool" where
  "pairs_resolve mgr inst =
     (\<forall>i < length (ZoneIDs inst).
        zone_registered mgr (ZoneIDs inst ! i) (inst_DynamicMapIDs inst ! i))"




text \<open>
  An extra partial ID is eligible for a zone when it resolves to a stored partial that
  is not auto-apply and is either unscoped (no dynamic map ID given) or scoped to the
  zone's dynamic map ID.
\<close>

definition eligible_extra :: "ServerDataManager \<Rightarrow> ServerZone \<Rightarrow> u32 \<Rightarrow> bool" where
  "eligible_extra mgr zone partialID =
     (\<exists>partial. GetZonePartialData mgr partialID = Some partial \<and>
        \<not> AutoApply partial \<and>
        (prt_DynamicMapIDs partial = {||} \<or>
         zone_DynamicMapID zone |\<in>| prt_DynamicMapIDs partial))"

text \<open>The auto-apply partial IDs mapped to a zone's dynamic map ID.\<close>

definition auto_partialIDs :: "ServerDataManager \<Rightarrow> ServerZone \<Rightarrow> u32 fset" where
  "auto_partialIDs mgr zone =
     (case mZonePartialMap mgr (zone_DynamicMapID zone) of Some ids \<Rightarrow> ids | None \<Rightarrow> {||})"








section \<open>Loading\<close>









































section \<open>Example data\<close>

text \<open>The manager before anything is loaded.\<close>

definition example_manager :: ServerDataManager where
  "example_manager =
     \<lparr>mZoneData = Map.empty, mFieldZoneIDs = [], mZoneInstanceData = Map.empty,
      mZoneInstanceVariantData = Map.empty, mStandardPvPVariantIDs = Map.empty,
      mZonePartialData = Map.empty, mZonePartialMap = Map.empty, mEventData = Map.empty,
      mShopData = Map.empty, mCompShopIDs = [], mAILogicGroups = Map.empty,
      mDemonPresentData = Map.empty, mDemonQuestRewardData = Map.empty,
      mDropSetData = Map.empty, mGiftDropSetLookup = Map.empty, mScripts = Map.empty,
      mAIScripts = Map.empty\<rparr>"

definition example_instance :: ServerZoneInstance where
  "example_instance =
     \<lparr>inst_ID = 7, LobbyID = 100, ZoneIDs = [10, 20, 30], inst_DynamicMapIDs = [1, 2, 3]\<rparr>"

definition mismatched_instance :: ServerZoneInstance where
  "mismatched_instance =
     \<lparr>inst_ID = 9, LobbyID = 100, ZoneIDs = [10, 20, 30], inst_DynamicMapIDs = [1, 2]\<rparr>"

definition no_definitions :: DefinitionManager where
  "no_definitions = \<lparr>dm_ZoneType = Map.empty, dm_DevilKnown = (\<lambda>enemyType. False)\<rparr>"

definition three_zones_manager :: ServerDataManager where
  "three_zones_manager =
     example_manager\<lparr>mZoneData := [10 \<mapsto> [(1, 0)], 20 \<mapsto> [(2, 1)], 30 \<mapsto> [(3, 2)]]\<rparr>"

definition empty_zone :: ServerZone where
  "empty_zone =
     \<lparr>zone_ID = 1, zone_DynamicMapID = 1, DropSetIDs = {||}, SkillWhitelist = {||},
      SkillBlacklist = {||}, NPCs = [], Objects = [], Spawns = [], SpawnGroups = [],
      SpawnLocationGroups = [], Spots = [], PlasmaSpawns = [], Triggers = []\<rparr>"

definition empty_partial :: ServerZonePartial where
  "empty_partial =
     \<lparr>prt_ID = 1, AutoApply = False, prt_DynamicMapIDs = {||}, prt_DropSetIDs = {||},
      prt_SkillWhitelist = {||}, prt_SkillBlacklist = {||}, prt_NPCs = [], prt_Objects = [],
      prt_Spawns = [], prt_SpawnGroups = [], prt_SpawnLocationGroups = [], prt_Spots = [],
      prt_Triggers = []\<rparr>"



text \<open>
  A store with one zone at address 0, and a manager that holds it as zone 1 with
  dynamic map ID 1: the zone has the spawns 1 and 3 and no spawn group.
\<close>

definition plain_spawn :: Spawn where
  "plain_spawn = \<lparr>EnemyType = 1, BossGroup = 0, Category = OTHER_CATEGORY\<rparr>"

definition base_zone :: ServerZone where
  "base_zone = empty_zone\<lparr>Spawns := [(1, plain_spawn), (3, plain_spawn)]\<rparr>"

definition base_store :: zone_store where
  "base_store = \<lparr>objs = (\<lambda>a. empty_zone)(0 := base_zone), next_free = 1\<rparr>"

definition base_manager :: ServerDataManager where
  "base_manager = example_manager\<lparr>mZoneData := [1 \<mapsto> [(1, 0)]]\<rparr>"

text \<open>Partial 5 brings spawn group 10, which references the spawns 1, 2 and 3.\<close>

definition group_10 :: SpawnGroup where
  "group_10 = \<lparr>sg_ID = 10, sg_Spawns = [(1, 1), (2, 1), (3, 1)],
                DefeatActions = [], SpawnActions = []\<rparr>"

definition partial_5 :: ServerZonePartial where
  "partial_5 = empty_partial\<lparr>prt_ID := 5, prt_SpawnGroups := [(10, group_10)]\<rparr>"

text \<open>
  Partial 6 brings spawn group 3, whose only spawn 8 is not in the zone, together with
  spawn group 10.
\<close>

definition group_3 :: SpawnGroup where
  "group_3 = \<lparr>sg_ID = 3, sg_Spawns = [(8, 1)], DefeatActions = [], SpawnActions = []\<rparr>"

definition partial_6 :: ServerZonePartial where
  "partial_6 = empty_partial\<lparr>prt_ID := 6, prt_SpawnGroups := [(3, group_3), (10, group_10)]\<rparr>"

definition partials_manager :: ServerDataManager where
  "partials_manager =
     base_manager\<lparr>mZonePartialData := [5 \<mapsto> partial_5, 6 \<mapsto> partial_6]\<rparr>"


text \<open>
  Two partials that define spot 5: partial 7 is supplied by the caller, partial 8 is
  auto-applied to dynamic map 1.
\<close>

definition spot_a :: ServerZoneSpot where
  "spot_a = \<lparr>spot_Actions = [ActionLeaf L_RUN_SCRIPT SOURCE], LeaveActions = []\<rparr>"

definition spot_b :: ServerZoneSpot where
  "spot_b = \<lparr>spot_Actions = [], LeaveActions = [ActionLeaf L_CREATE_LOOT SOURCE]\<rparr>"

definition partial_7 :: ServerZonePartial where
  "partial_7 = empty_partial\<lparr>prt_ID := 7, prt_Spots := [(5, spot_a)]\<rparr>"

definition partial_8 :: ServerZonePartial where
  "partial_8 = empty_partial\<lparr>prt_ID := 8, AutoApply := True, prt_DynamicMapIDs := {|1|},
                            prt_Spots := [(5, spot_b)]\<rparr>"

definition spots_manager :: ServerDataManager where
  "spots_manager =
     base_manager\<lparr>mZonePartialData := [7 \<mapsto> partial_7, 8 \<mapsto> partial_8],
                  mZonePartialMap := [1 \<mapsto> {|8|}]\<rparr>"






section \<open>Properties of the action validation\<close>

lemma player_required_iff: "player_required t = (t \<in> context_restricted_types)"
  by (cases t) (simp_all add: context_restricted_types_def)

lemma reaches_Nil: "\<not> reaches ac [] eff a"
  by (auto elim: reaches.cases)

lemma reaches_mono: "reaches ac xs eff a \<Longrightarrow> set xs \<subseteq> set ys \<Longrightarrow> reaches ac ys eff a"
  by (induction rule: reaches.induct) (auto intro: reaches.intros)

lemma reaches_ConsD:
  "reaches ac (x # xs) eff a \<Longrightarrow>
     (a = x \<and> eff = (ac \<and> is_auto_source x)) \<or>
     (\<exists>c nested. (x = ActionDelay c nested \<or> x = ActionSpawn c nested) \<and>
          reaches (ac \<and> is_auto_source x) nested eff a) \<or>
     reaches ac xs eff a"
  by (erule reaches.cases) (blast dest: set_ConsD intro: reaches.intros)+

lemma reaches_ConsI1: "reaches ac (x # xs) (ac \<and> is_auto_source x) x"
  using reaches_here [of x "x # xs" ac] by simp

lemma reaches_ConsI2:
  "x = ActionDelay c nested \<or> x = ActionSpawn c nested \<Longrightarrow>
   reaches (ac \<and> is_auto_source x) nested eff a \<Longrightarrow> reaches ac (x # xs) eff a"
  using reaches_delay [of c nested "x # xs" ac eff a]
    reaches_spawn [of c nested "x # xs" ac eff a] by auto

lemma reaches_ConsI3: "reaches ac xs eff a \<Longrightarrow> reaches ac (x # xs) eff a"
  by (rule reaches_mono) auto

lemma reaches_Cons:
  "reaches ac (x # xs) eff a =
     ((a = x \<and> eff = (ac \<and> is_auto_source x)) \<or>
      (\<exists>c nested. (x = ActionDelay c nested \<or> x = ActionSpawn c nested) \<and>
          reaches (ac \<and> is_auto_source x) nested eff a) \<or>
      reaches ac xs eff a)"
  using reaches_ConsD [of ac x xs eff a] reaches_ConsI1 [of ac x xs]
    reaches_ConsI2 [of x _ _ ac eff a xs] reaches_ConsI3 [of ac xs eff a x]
  by blast

lemma fatal_violation_Nil: "\<not> fatal_violation ac []"
  by (simp add: fatal_violation_def reaches_Nil)

lemma fatal_violation_Cons_raw:
  "fatal_violation ac (x # xs) =
     ((GetActionType x \<in> context_restricted_types \<and> ac \<and> is_auto_source x) \<or>
      (\<exists>c nested. (x = ActionDelay c nested \<or> x = ActionSpawn c nested) \<and>
          fatal_violation (ac \<and> is_auto_source x) nested) \<or>
      fatal_violation ac xs)"
  unfolding fatal_violation_def reaches_Cons by blast

lemma fatal_violation_Delay:
  "fatal_violation ac (ActionDelay c nested # xs) =
     (fatal_violation (ac \<and> is_auto_source (ActionDelay c nested)) nested \<or>
      fatal_violation ac xs)"
  by (simp add: fatal_violation_Cons_raw context_restricted_types_def)

lemma fatal_violation_Spawn:
  "fatal_violation ac (ActionSpawn c nested # xs) =
     (fatal_violation (ac \<and> is_auto_source (ActionSpawn c nested)) nested \<or>
      fatal_violation ac xs)"
  by (simp add: fatal_violation_Cons_raw context_restricted_types_def)

lemma fatal_violation_ZoneChange:
  "fatal_violation ac (ActionZoneChange c z # xs) =
     ((ac \<and> is_auto_source (ActionZoneChange c z)) \<or> fatal_violation ac xs)"
  by (simp add: fatal_violation_Cons_raw context_restricted_types_def)

lemma fatal_violation_ZoneInstance:
  "fatal_violation ac (ActionZoneInstance c m # xs) =
     ((ac \<and> is_auto_source (ActionZoneInstance c m)) \<or> fatal_violation ac xs)"
  by (simp add: fatal_violation_Cons_raw context_restricted_types_def)

lemma fatal_violation_Leaf:
  "fatal_violation ac (ActionLeaf t c # xs) =
     ((player_required (leaf_type t) \<and> ac \<and> is_auto_source (ActionLeaf t c)) \<or>
      fatal_violation ac xs)"
  by (simp add: fatal_violation_Cons_raw player_required_iff)

lemmas fatal_violation_Cons = fatal_violation_Delay fatal_violation_Spawn
  fatal_violation_ZoneChange fatal_violation_ZoneInstance fatal_violation_Leaf

lemma actions_induct [case_names Nil Delay Spawn ZoneChange ZoneInstance Leaf]:
  assumes "P []"
    and "\<And>c nested rest. P nested \<Longrightarrow> P rest \<Longrightarrow> P (ActionDelay c nested # rest)"
    and "\<And>c nested rest. P nested \<Longrightarrow> P rest \<Longrightarrow> P (ActionSpawn c nested # rest)"
    and "\<And>c z rest. P rest \<Longrightarrow> P (ActionZoneChange c z # rest)"
    and "\<And>c m rest. P rest \<Longrightarrow> P (ActionZoneInstance c m # rest)"
    and "\<And>t c rest. P rest \<Longrightarrow> P (ActionLeaf t c # rest)"
  shows "P acts"
proof (induction acts rule: measure_induct_rule [where f = "size_list size"])
  case (less acts)
  show ?case
  proof (cases acts)
    case Nil
    then show ?thesis using assms(1) by simp
  next
    case (Cons a rest)
    have r: "P rest" using less [of rest] Cons by simp
    show ?thesis
    proof (cases a)
      case (ActionDelay c nested)
      have "P nested" using less [of nested] Cons ActionDelay by simp
      then show ?thesis using assms(2) r Cons ActionDelay by simp
    next
      case (ActionSpawn c nested)
      have "P nested" using less [of nested] Cons ActionSpawn by simp
      then show ?thesis using assms(3) r Cons ActionSpawn by simp
    next
      case (ActionZoneChange c z)
      then show ?thesis using assms(4) r Cons by simp
    next
      case (ActionZoneInstance c m)
      then show ?thesis using assms(5) r Cons by simp
    next
      case (ActionLeaf t c)
      then show ?thesis using assms(6) r Cons by simp
    qed
  qed
qed

lemma loop_Delay:
  "ValidateActions_loop n cur src ac ie (ActionDelay c nested # rest) =
     (if \<not> fst (ValidateActions_loop (length nested) 0 (src @ '' => Delay Actions'')
                  (ac \<and> is_auto_source (ActionDelay c nested)) False nested)
      then (False, snd (ValidateActions_loop (length nested) 0 (src @ '' => Delay Actions'')
                  (ac \<and> is_auto_source (ActionDelay c nested)) False nested))
      else (fst (ValidateActions_loop n (Suc cur) src ac ie rest),
            snd (ValidateActions_loop (length nested) 0 (src @ '' => Delay Actions'')
                  (ac \<and> is_auto_source (ActionDelay c nested)) False nested) @
            snd (ValidateActions_loop n (Suc cur) src ac ie rest)))"
  by (simp add: Let_def split: prod.splits)

lemma loop_Spawn:
  "ValidateActions_loop n cur src ac ie (ActionSpawn c nested # rest) =
     (if \<not> fst (ValidateActions_loop (length nested) 0 (src @ '' => Defeat Actions'')
                  (ac \<and> is_auto_source (ActionSpawn c nested)) False nested)
      then (False, snd (ValidateActions_loop (length nested) 0 (src @ '' => Defeat Actions'')
                  (ac \<and> is_auto_source (ActionSpawn c nested)) False nested))
      else (fst (ValidateActions_loop n (Suc cur) src ac ie rest),
            snd (ValidateActions_loop (length nested) 0 (src @ '' => Defeat Actions'')
                  (ac \<and> is_auto_source (ActionSpawn c nested)) False nested) @
            snd (ValidateActions_loop n (Suc cur) src ac ie rest)))"
  by (simp add: Let_def split: prod.splits)

lemma loop_ZoneChange:
  "ValidateActions_loop n cur src ac ie (ActionZoneChange c z # rest) =
     (if ac \<and> is_auto_source (ActionZoneChange c z)
      then (False, mid_warning n cur ie src (ActionZoneChange c z) @
              [PlayerRequiredError ZONE_CHANGE src])
      else (fst (ValidateActions_loop n (Suc cur) src ac ie rest),
            mid_warning n cur ie src (ActionZoneChange c z) @
            snd (ValidateActions_loop n (Suc cur) src ac ie rest)))"
  by (simp add: Let_def mid_warning_def split: prod.splits)

lemma loop_ZoneInstance:
  "ValidateActions_loop n cur src ac ie (ActionZoneInstance c m # rest) =
     (if ac \<and> is_auto_source (ActionZoneInstance c m)
      then (False, mid_warning n cur ie src (ActionZoneInstance c m) @
              [PlayerRequiredError ZONE_INSTANCE src])
      else (fst (ValidateActions_loop n (Suc cur) src ac ie rest),
            mid_warning n cur ie src (ActionZoneInstance c m) @
            snd (ValidateActions_loop n (Suc cur) src ac ie rest)))"
  by (simp add: Let_def mid_warning_def split: prod.splits)

lemma loop_Leaf:
  "ValidateActions_loop n cur src ac ie (ActionLeaf t c # rest) =
     (if player_required (leaf_type t) \<and> ac \<and> is_auto_source (ActionLeaf t c)
      then (False, [PlayerRequiredError (leaf_type t) src])
      else ValidateActions_loop n (Suc cur) src ac ie rest)"
  by (simp add: Let_def split: prod.splits)

lemmas loop_Cons = loop_Delay loop_Spawn loop_ZoneChange loop_ZoneInstance loop_Leaf

declare ValidateActions_loop.simps(2) [simp del]

lemma loop_fst:
  "fst (ValidateActions_loop n cur src ac ie acts) = (\<not> fatal_violation ac acts)"
proof (induction acts arbitrary: n cur src ac ie rule: actions_induct)
  case Nil
  then show ?case by (simp add: fatal_violation_Nil)
next
  case (Delay c nested rest)
  show ?case
    using Delay(2) [of n "Suc cur" src ac ie]
      Delay(1) [of "length nested" 0 "src @ '' => Delay Actions''"
        "ac \<and> is_auto_source (ActionDelay c nested)" False]
    by (simp add: loop_Delay fatal_violation_Delay)
next
  case (Spawn c nested rest)
  show ?case
    using Spawn(2) [of n "Suc cur" src ac ie]
      Spawn(1) [of "length nested" 0 "src @ '' => Defeat Actions''"
        "ac \<and> is_auto_source (ActionSpawn c nested)" False]
    by (simp add: loop_Spawn fatal_violation_Spawn)
next
  case (ZoneChange c z rest)
  show ?case
    using ZoneChange [of n "Suc cur" src ac ie]
    by (simp add: loop_ZoneChange fatal_violation_ZoneChange)
next
  case (ZoneInstance c m rest)
  show ?case
    using ZoneInstance [of n "Suc cur" src ac ie]
    by (simp add: loop_ZoneInstance fatal_violation_ZoneInstance)
next
  case (Leaf t c rest)
  show ?case
    using Leaf [of n "Suc cur" src ac ie]
    by (simp add: loop_Leaf fatal_violation_Leaf)
qed

lemma loop_stop_here:
  "fatal_violation ac [a] \<Longrightarrow>
   ValidateActions_loop n cur src ac ie (a # post) = ValidateActions_loop n cur src ac ie [a]"
  by (cases a)
    (simp_all add: loop_Cons loop_fst fatal_violation_Cons fatal_violation_Nil)

lemma loop_stop:
  "\<not> fatal_violation ac pre \<Longrightarrow> fatal_violation ac [a] \<Longrightarrow>
   ValidateActions_loop n cur src ac ie (pre @ a # post) =
   ValidateActions_loop n cur src ac ie (pre @ [a])"
proof (induction pre arbitrary: cur)
  case Nil
  then show ?case using loop_stop_here [of ac a n cur src ie post] by simp
next
  case (Cons x pre)
  have IH: "ValidateActions_loop n (Suc cur) src ac ie (pre @ a # post) =
      ValidateActions_loop n (Suc cur) src ac ie (pre @ [a])"
    using Cons.IH [of "Suc cur"] Cons.prems
    by (cases x) (simp_all add: fatal_violation_Cons)
  show ?case
    by (cases x) (simp_all add: loop_Cons IH)
qed

lemma loop_labels:
  "e \<in> set (snd (ValidateActions_loop n cur src ac ie acts)) \<Longrightarrow>
   length src \<le> length (entry_label e)"
proof (induction acts arbitrary: n cur src ac ie rule: actions_induct)
  case Nil
  then show ?case by simp
next
  case (Delay c nested rest)
  from Delay.prems show ?case
    using Delay.IH(2) [of n "Suc cur" src ac ie]
      Delay.IH(1) [of "length nested" 0 "src @ '' => Delay Actions''"
        "ac \<and> is_auto_source (ActionDelay c nested)" False]
    by (auto simp: loop_Delay split: if_splits)
next
  case (Spawn c nested rest)
  from Spawn.prems show ?case
    using Spawn.IH(2) [of n "Suc cur" src ac ie]
      Spawn.IH(1) [of "length nested" 0 "src @ '' => Defeat Actions''"
        "ac \<and> is_auto_source (ActionSpawn c nested)" False]
    by (auto simp: loop_Spawn split: if_splits)
next
  case (ZoneChange c z rest)
  from ZoneChange.prems show ?case
    using ZoneChange.IH [of n "Suc cur" src ac ie]
    by (auto simp: loop_ZoneChange mid_warning_def split: if_splits)
next
  case (ZoneInstance c m rest)
  from ZoneInstance.prems show ?case
    using ZoneInstance.IH [of n "Suc cur" src ac ie]
    by (auto simp: loop_ZoneInstance mid_warning_def split: if_splits)
next
  case (Leaf t c rest)
  from Leaf.prems show ?case
    using Leaf.IH [of n "Suc cur" src ac ie]
    by (auto simp: loop_Leaf split: if_splits)
qed

lemma nested_label_differs:
  "sfx \<noteq> [] \<Longrightarrow>
   MidSetZoneChangeWarning src \<notin> set (snd (ValidateActions_loop n cur (src @ sfx) ac ie acts))"
  using loop_labels [of "MidSetZoneChangeWarning src" n cur "src @ sfx" ac ie acts]
  by auto

lemma count_nested_zero:
  "sfx \<noteq> [] \<Longrightarrow>
   count_list (snd (ValidateActions_loop n cur (src @ sfx) ac ie acts))
     (MidSetZoneChangeWarning src) = 0"
  using nested_label_differs [of sfx src n cur ac ie acts] by (simp add: count_list_0_iff)

lemma count_in_event:
  "count_list (snd (ValidateActions_loop n cur src ac True acts))
     (MidSetZoneChangeWarning src) = 0"
proof (induction acts arbitrary: cur)
  case Nil
  then show ?case by simp
next
  case (Cons x rest)
  show ?case
    using Cons [of "Suc cur"]
    by (cases x) (simp_all add: loop_Cons mid_warning_def count_nested_zero)
qed

lemma count_mid_list:
  "n = cur + length acts \<Longrightarrow> \<not> fatal_violation ac acts \<Longrightarrow>
   count_list (snd (ValidateActions_loop n cur src ac False acts))
     (MidSetZoneChangeWarning src) = length (filter zone_change_warn (butlast acts))"
proof (induction acts arbitrary: cur)
  case Nil
  then show ?case by simp
next
  case (Cons x rest)
  have nv: "\<not> fatal_violation ac rest"
    using Cons.prems(2) by (cases x) (simp_all add: fatal_violation_Cons)
  have IH: "count_list (snd (ValidateActions_loop n (Suc cur) src ac False rest))
        (MidSetZoneChangeWarning src) = length (filter zone_change_warn (butlast rest))"
    using Cons.IH [of "Suc cur"] Cons.prems(1) nv by simp
  have last: "(Suc cur = n) = (rest = [])"
    using Cons.prems(1) by auto
  show ?case
    using Cons.prems(2) IH last
    by (cases x)
      (auto simp: loop_Cons loop_fst fatal_violation_Cons mid_warning_def
        count_nested_zero)
qed

lemma nested_delay_logged:
  "\<not> fatal_violation ac acts \<Longrightarrow> ActionDelay c nested \<in> set acts \<Longrightarrow>
   set (snd (ValidateActions_loop (length nested) 0 (src @ '' => Delay Actions'')
              (ac \<and> is_auto_source (ActionDelay c nested)) False nested))
     \<subseteq> set (snd (ValidateActions_loop n cur src ac ie acts))"
proof (induction acts arbitrary: cur)
  case Nil
  then show ?case by simp
next
  case (Cons x rest)
  have nv: "\<not> fatal_violation ac rest"
    using Cons.prems(1) by (cases x) (simp_all add: fatal_violation_Cons)
  show ?case
  proof (cases "x = ActionDelay c nested")
    case True
    then show ?thesis using Cons.prems(1)
      by (simp add: loop_Delay loop_fst fatal_violation_Delay)
  next
    case False
    then have "ActionDelay c nested \<in> set rest" using Cons.prems(2) by simp
    then have sub: "set (snd (ValidateActions_loop (length nested) 0
        (src @ '' => Delay Actions'') (ac \<and> is_auto_source (ActionDelay c nested)) False
        nested)) \<subseteq> set (snd (ValidateActions_loop n (Suc cur) src ac ie rest))"
      using Cons.IH [of "Suc cur"] nv by simp
    show ?thesis
      using Cons.prems(1) sub
      by (cases x) (auto simp: loop_Cons loop_fst fatal_violation_Cons)
  qed
qed

lemma nested_spawn_logged:
  "\<not> fatal_violation ac acts \<Longrightarrow> ActionSpawn c nested \<in> set acts \<Longrightarrow>
   set (snd (ValidateActions_loop (length nested) 0 (src @ '' => Defeat Actions'')
              (ac \<and> is_auto_source (ActionSpawn c nested)) False nested))
     \<subseteq> set (snd (ValidateActions_loop n cur src ac ie acts))"
proof (induction acts arbitrary: cur)
  case Nil
  then show ?case by simp
next
  case (Cons x rest)
  have nv: "\<not> fatal_violation ac rest"
    using Cons.prems(1) by (cases x) (simp_all add: fatal_violation_Cons)
  show ?case
  proof (cases "x = ActionSpawn c nested")
    case True
    then show ?thesis using Cons.prems(1)
      by (simp add: loop_Spawn loop_fst fatal_violation_Spawn)
  next
    case False
    then have "ActionSpawn c nested \<in> set rest" using Cons.prems(2) by simp
    then have sub: "set (snd (ValidateActions_loop (length nested) 0
        (src @ '' => Defeat Actions'') (ac \<and> is_auto_source (ActionSpawn c nested)) False
        nested)) \<subseteq> set (snd (ValidateActions_loop n (Suc cur) src ac ie rest))"
      using Cons.IH [of "Suc cur"] nv by simp
    show ?thesis
      using Cons.prems(1) sub
      by (cases x) (auto simp: loop_Cons loop_fst fatal_violation_Cons)
  qed
qed

lemma terminal_action_iff: "terminal_action a = zone_change_warn a"
  by (cases a) (auto simp: terminal_action_def split: Mode_t.splits)

lemma ValidateActions_fst:
  "fst (ValidateActions actions source autoContext inEvent) =
     (\<not> fatal_violation autoContext actions)"
  by (simp add: ValidateActions_def loop_fst)

text \<open>
  C3. ValidateActions returns false exactly when some action reachable from the list,
  also through nested DELAY action lists and SPAWN defeat-action lists, is of a
  context-restricted type while its effective auto-context is true. The check stops at
  the first violation: when the actions before \<open>a\<close> hold no violation and \<open>a\<close>
  holds one, the call on \<open>pre @ a # post\<close> returns what the loop returns on
  \<open>pre @ [a]\<close> alone (with the same count), so nothing after \<open>a\<close> is looked at.
\<close>

theorem ValidateActions_fatal_iff:
  "(fst (ValidateActions actions source autoContext inEvent) = False) =
     fatal_violation autoContext actions \<and>
   (\<not> fatal_violation autoContext pre \<and> fatal_violation autoContext [a] \<longrightarrow>
      ValidateActions (pre @ a # post) source autoContext inEvent =
        ValidateActions_loop (length (pre @ a # post)) 0 source autoContext inEvent
          (pre @ [a]) \<and>
      fst (ValidateActions (pre @ a # post) source autoContext inEvent) = False)"
proof (intro conjI impI)
  show "(fst (ValidateActions actions source autoContext inEvent) = False) =
      fatal_violation autoContext actions"
    by (simp add: ValidateActions_fst)
next
  assume h: "\<not> fatal_violation autoContext pre \<and> fatal_violation autoContext [a]"
  then show eq: "ValidateActions (pre @ a # post) source autoContext inEvent =
      ValidateActions_loop (length (pre @ a # post)) 0 source autoContext inEvent
        (pre @ [a])"
    unfolding ValidateActions_def by (intro loop_stop) simp_all
  have "fatal_violation autoContext (pre @ [a])"
    using h
  proof (induction pre)
    case Nil
    then show ?case by simp
  next
    case (Cons x pre)
    then show ?case by (cases x) (simp_all add: fatal_violation_Cons)
  qed
  then show "fst (ValidateActions (pre @ a # post) source autoContext inEvent) = False"
    unfolding eq by (simp add: loop_fst)
qed

theorem ValidateActions_fatal_iff_witness:
  "fatal_violation True
     [ActionLeaf L_GRANT_XP ENEMIES, ActionZoneChange SOURCE 5] \<and>
   fst (ValidateActions [ActionLeaf L_GRANT_XP ENEMIES, ActionZoneChange SOURCE 5]
          ''Zone 1 trigger'' True False) = False \<and>
   \<not> fatal_violation True [ActionLeaf L_RUN_SCRIPT SOURCE] \<and>
   fatal_violation True
     [ActionDelay SOURCE [ActionSpawn ENEMIES [ActionLeaf L_DISPLAY_MESSAGE SOURCE]]] \<and>
   ValidateActions
     ([ActionLeaf L_RUN_SCRIPT SOURCE] @
      ActionDelay SOURCE [ActionSpawn ENEMIES [ActionLeaf L_DISPLAY_MESSAGE SOURCE]] #
      [ActionZoneChange SOURCE 5])
     ''Zone 1 trigger'' True False =
   (False, [PlayerRequiredError DISPLAY_MESSAGE
              ''Zone 1 trigger => Delay Actions => Defeat Actions''])"
proof -
  have v: "fatal_violation True
      [ActionLeaf L_GRANT_XP ENEMIES, ActionZoneChange SOURCE 5]"
    by (simp add: fatal_violation_Cons fatal_violation_Nil is_auto_source_def)
  have h: "\<not> fatal_violation True [ActionLeaf L_RUN_SCRIPT SOURCE] \<and>
      fatal_violation True
        [ActionDelay SOURCE [ActionSpawn ENEMIES [ActionLeaf L_DISPLAY_MESSAGE SOURCE]]]"
    by (simp add: fatal_violation_Cons fatal_violation_Nil is_auto_source_def)
  note inst = ValidateActions_fatal_iff
    [of "[ActionLeaf L_GRANT_XP ENEMIES, ActionZoneChange SOURCE 5]" "''Zone 1 trigger''"
      True False "[ActionLeaf L_RUN_SCRIPT SOURCE]"
      "ActionDelay SOURCE [ActionSpawn ENEMIES [ActionLeaf L_DISPLAY_MESSAGE SOURCE]]"
      "[ActionZoneChange SOURCE 5]"]
  have r: "fst (ValidateActions [ActionLeaf L_GRANT_XP ENEMIES, ActionZoneChange SOURCE 5]
      ''Zone 1 trigger'' True False) = False"
    using inst v by blast
  have s: "ValidateActions
      ([ActionLeaf L_RUN_SCRIPT SOURCE] @
       ActionDelay SOURCE [ActionSpawn ENEMIES [ActionLeaf L_DISPLAY_MESSAGE SOURCE]] #
       [ActionZoneChange SOURCE 5]) ''Zone 1 trigger'' True False =
      ValidateActions_loop
        (length ([ActionLeaf L_RUN_SCRIPT SOURCE] @
           ActionDelay SOURCE [ActionSpawn ENEMIES [ActionLeaf L_DISPLAY_MESSAGE SOURCE]] #
           [ActionZoneChange SOURCE 5])) 0 ''Zone 1 trigger'' True False
        ([ActionLeaf L_RUN_SCRIPT SOURCE] @
         [ActionDelay SOURCE [ActionSpawn ENEMIES [ActionLeaf L_DISPLAY_MESSAGE SOURCE]]])"
    using inst h by blast
  have e: "ValidateActions_loop
        (length ([ActionLeaf L_RUN_SCRIPT SOURCE] @
           ActionDelay SOURCE [ActionSpawn ENEMIES [ActionLeaf L_DISPLAY_MESSAGE SOURCE]] #
           [ActionZoneChange SOURCE 5])) 0 ''Zone 1 trigger'' True False
        ([ActionLeaf L_RUN_SCRIPT SOURCE] @
         [ActionDelay SOURCE [ActionSpawn ENEMIES [ActionLeaf L_DISPLAY_MESSAGE SOURCE]]]) =
      (False, [PlayerRequiredError DISPLAY_MESSAGE
                 ''Zone 1 trigger => Delay Actions => Defeat Actions''])"
    by (simp add: loop_Cons is_auto_source_def)
  show ?thesis
    using v h r s e by (simp only: simp_thms)
qed

text \<open>
  C7. When the list holds no fatal auto-context violation, ValidateActions returns true,
  whatever \<open>inEvent\<close> is. With \<open>inEvent = false\<close>, a ZONE_CHANGE action with a
  non-zero zone ID or a ZONE_INSTANCE action of mode JOIN, CLAN_JOIN, TEAM_JOIN or
  TEAM_PVP at a position other than the last one is warned about under the list's own
  label: one warning for each such action. With \<open>inEvent = true\<close> no warning carries
  the list's own label. The nested lists of DELAY and SPAWN actions are validated with
  \<open>inEvent = false\<close> whatever the flag of the outer call is: what the nested call
  logs with \<open>inEvent = false\<close> is logged by the outer call.
\<close>

theorem ValidateActions_mid_list_warning:
  "\<not> fatal_violation autoContext actions \<longrightarrow>
     fst (ValidateActions actions source autoContext inEvent) \<and>
     ((\<exists>i. Suc i < length actions \<and> terminal_action (actions ! i)) \<longrightarrow>
        MidSetZoneChangeWarning source
          \<in> set (snd (ValidateActions actions source autoContext False))) \<and>
     count_list (snd (ValidateActions actions source autoContext False))
        (MidSetZoneChangeWarning source) =
       length (filter terminal_action (butlast actions)) \<and>
     MidSetZoneChangeWarning source
       \<notin> set (snd (ValidateActions actions source autoContext True)) \<and>
     (\<forall>c nested. ActionDelay c nested \<in> set actions \<longrightarrow>
        set (snd (ValidateActions nested (source @ '' => Delay Actions'')
                    (autoContext \<and> is_auto_source (ActionDelay c nested)) False))
          \<subseteq> set (snd (ValidateActions actions source autoContext inEvent))) \<and>
     (\<forall>c nested. ActionSpawn c nested \<in> set actions \<longrightarrow>
        set (snd (ValidateActions nested (source @ '' => Defeat Actions'')
                    (autoContext \<and> is_auto_source (ActionSpawn c nested)) False))
          \<subseteq> set (snd (ValidateActions actions source autoContext inEvent)))"
proof (intro impI conjI allI)
  assume nv: "\<not> fatal_violation autoContext actions"
  show "fst (ValidateActions actions source autoContext inEvent)"
    using nv by (simp add: ValidateActions_fst)
  have filt: "filter terminal_action = filter zone_change_warn"
    by (simp add: terminal_action_iff [abs_def])
  show cnt: "count_list (snd (ValidateActions actions source autoContext False))
      (MidSetZoneChangeWarning source) = length (filter terminal_action (butlast actions))"
    unfolding ValidateActions_def filt using nv by (intro count_mid_list) simp_all
  show "MidSetZoneChangeWarning source
      \<in> set (snd (ValidateActions actions source autoContext False))"
    if "\<exists>i. Suc i < length actions \<and> terminal_action (actions ! i)"
  proof -
    from that obtain i where i: "Suc i < length actions" "terminal_action (actions ! i)"
      by blast
    then have "butlast actions ! i \<in> set (butlast actions)" by simp
    moreover have "butlast actions ! i = actions ! i"
      using i(1) by (simp add: nth_butlast)
    ultimately have "filter terminal_action (butlast actions) \<noteq> []"
      using i(2) by (auto simp: filter_empty_conv)
    then have "count_list (snd (ValidateActions actions source autoContext False))
        (MidSetZoneChangeWarning source) \<noteq> 0"
      using cnt by simp
    then show ?thesis by (simp add: count_list_0_iff)
  qed
  show "MidSetZoneChangeWarning source
      \<notin> set (snd (ValidateActions actions source autoContext True))"
    using count_in_event [of "length actions" 0 source autoContext actions]
    by (simp add: ValidateActions_def count_list_0_iff)
  show "set (snd (ValidateActions nested (source @ '' => Delay Actions'')
        (autoContext \<and> is_auto_source (ActionDelay c nested)) False))
      \<subseteq> set (snd (ValidateActions actions source autoContext inEvent))"
    if "ActionDelay c nested \<in> set actions" for c nested
    unfolding ValidateActions_def using nv that by (rule nested_delay_logged)
  show "set (snd (ValidateActions nested (source @ '' => Defeat Actions'')
        (autoContext \<and> is_auto_source (ActionSpawn c nested)) False))
      \<subseteq> set (snd (ValidateActions actions source autoContext inEvent))"
    if "ActionSpawn c nested \<in> set actions" for c nested
    unfolding ValidateActions_def using nv that by (rule nested_spawn_logged)
qed

theorem ValidateActions_mid_list_warning_witness:
  "\<not> fatal_violation False
       [ActionZoneChange OTHER_CONTEXT 5,
        ActionDelay SOURCE [ActionZoneInstance SOURCE JOIN, ActionLeaf L_RUN_SCRIPT SOURCE],
        ActionLeaf L_DISPLAY_MESSAGE OTHER_CONTEXT] \<and>
   fst (ValidateActions
       [ActionZoneChange OTHER_CONTEXT 5,
        ActionDelay SOURCE [ActionZoneInstance SOURCE JOIN, ActionLeaf L_RUN_SCRIPT SOURCE],
        ActionLeaf L_DISPLAY_MESSAGE OTHER_CONTEXT] ''ev'' False True) \<and>
   count_list (snd (ValidateActions
       [ActionZoneChange OTHER_CONTEXT 5,
        ActionDelay SOURCE [ActionZoneInstance SOURCE JOIN, ActionLeaf L_RUN_SCRIPT SOURCE],
        ActionLeaf L_DISPLAY_MESSAGE OTHER_CONTEXT] ''ev'' False False))
     (MidSetZoneChangeWarning ''ev'') = 1 \<and>
   MidSetZoneChangeWarning ''ev'' \<notin> set (snd (ValidateActions
       [ActionZoneChange OTHER_CONTEXT 5,
        ActionDelay SOURCE [ActionZoneInstance SOURCE JOIN, ActionLeaf L_RUN_SCRIPT SOURCE],
        ActionLeaf L_DISPLAY_MESSAGE OTHER_CONTEXT] ''ev'' False True)) \<and>
   MidSetZoneChangeWarning ''ev => Delay Actions'' \<in> set (snd (ValidateActions
       [ActionZoneChange OTHER_CONTEXT 5,
        ActionDelay SOURCE [ActionZoneInstance SOURCE JOIN, ActionLeaf L_RUN_SCRIPT SOURCE],
        ActionLeaf L_DISPLAY_MESSAGE OTHER_CONTEXT] ''ev'' False True))"
proof -
  let ?nested = "[ActionZoneInstance SOURCE JOIN, ActionLeaf L_RUN_SCRIPT SOURCE]"
  let ?acts = "[ActionZoneChange OTHER_CONTEXT 5, ActionDelay SOURCE ?nested,
      ActionLeaf L_DISPLAY_MESSAGE OTHER_CONTEXT]"
  have h: "\<not> fatal_violation False ?acts"
    by (simp add: fatal_violation_Cons fatal_violation_Nil is_auto_source_def)
  note inst = ValidateActions_mid_list_warning [of False ?acts "''ev''" True]
  have t: "terminal_action (ActionZoneChange OTHER_CONTEXT 5)"
    "\<not> terminal_action (ActionDelay SOURCE ?nested)"
    by (simp_all add: terminal_action_def)
  have n: "MidSetZoneChangeWarning ''ev => Delay Actions''
      \<in> set (snd (ValidateActions ?nested (''ev'' @ '' => Delay Actions'')
            (False \<and> is_auto_source (ActionDelay SOURCE ?nested)) False))"
    by (simp add: ValidateActions_def loop_Cons mid_warning_def)
  have d: "ActionDelay SOURCE ?nested \<in> set ?acts" by simp
  have c1: "fst (ValidateActions ?acts ''ev'' False True)"
    using inst h by blast
  have c2: "count_list (snd (ValidateActions ?acts ''ev'' False False))
      (MidSetZoneChangeWarning ''ev'') = length (filter terminal_action (butlast ?acts))"
    using inst h by blast
  have c3: "MidSetZoneChangeWarning ''ev''
      \<notin> set (snd (ValidateActions ?acts ''ev'' False True))"
    using inst h by blast
  have c4: "set (snd (ValidateActions ?nested (''ev'' @ '' => Delay Actions'')
            (False \<and> is_auto_source (ActionDelay SOURCE ?nested)) False))
      \<subseteq> set (snd (ValidateActions ?acts ''ev'' False True))"
    using inst h d by blast
  have c5: "MidSetZoneChangeWarning ''ev => Delay Actions''
      \<in> set (snd (ValidateActions ?acts ''ev'' False True))"
    using c4 n by blast
  have c6: "length (filter terminal_action (butlast ?acts)) = 1"
    using t by simp
  show ?thesis
    using h c1 c2 c3 c5 c6 by (simp only: simp_thms)
qed

section \<open>Properties of zone instances\<close>


lemma exists_loop_zero:
  "set idx \<subseteq> {..<length (ZoneIDs inst)} \<Longrightarrow>
   ExistsInInstance_loop inst z 0 idx = Some (\<exists>i \<in> set idx. ZoneIDs inst ! i = z)"
  by (induction idx) (auto simp: GetAt_def)

lemma exists_loop_pair:
  "set idx \<subseteq> {..<length (ZoneIDs inst)} \<Longrightarrow>
   length (ZoneIDs inst) \<le> length (inst_DynamicMapIDs inst) \<Longrightarrow> d \<noteq> 0 \<Longrightarrow>
   ExistsInInstance_loop inst z d idx =
     Some (\<exists>i \<in> set idx. ZoneIDs inst ! i = z \<and> inst_DynamicMapIDs inst ! i = d)"
  by (induction idx) (auto simp: GetAt_def)

text \<open>
  C10. ExistsInInstance answers false for an instance ID that is not loaded. For a
  loaded instance, dynamicMapID 0 is a wildcard: the answer is whether zoneID stands at
  some index of the zone ID sequence, whatever the dynamic map ID paired with it. With
  a non-zero dynamicMapID, and the two sequences of equal length (as the loader leaves
  every instance it registers), the answer is whether some index holds exactly that
  pair.
\<close>

theorem ExistsInInstance_wildcard:
  "(GetZoneInstanceData mgr instanceID = None \<longrightarrow>
      ExistsInInstance mgr instanceID zoneID dynamicMapID = Some False) \<and>
   (\<forall>instDef. GetZoneInstanceData mgr instanceID = Some instDef \<longrightarrow>
      ExistsInInstance mgr instanceID zoneID 0 =
        Some (\<exists>i < length (ZoneIDs instDef). ZoneIDs instDef ! i = zoneID) \<and>
      (dynamicMapID \<noteq> 0 \<and> length (ZoneIDs instDef) = length (inst_DynamicMapIDs instDef) \<longrightarrow>
         ExistsInInstance mgr instanceID zoneID dynamicMapID =
           Some (\<exists>i < length (ZoneIDs instDef).
                   ZoneIDs instDef ! i = zoneID \<and>
                   inst_DynamicMapIDs instDef ! i = dynamicMapID)))"
proof (intro conjI allI impI)
  assume "GetZoneInstanceData mgr instanceID = None"
  then show "ExistsInInstance mgr instanceID zoneID dynamicMapID = Some False"
    by (simp add: ExistsInInstance_def)
next
  fix instDef
  assume inst: "GetZoneInstanceData mgr instanceID = Some instDef"
  have idx: "set [0..<length (ZoneIDs instDef)] \<subseteq> {..<length (ZoneIDs instDef)}"
    by auto
  show "ExistsInInstance mgr instanceID zoneID 0 =
      Some (\<exists>i < length (ZoneIDs instDef). ZoneIDs instDef ! i = zoneID)"
    using exists_loop_zero [OF idx, of zoneID] inst
    by (simp add: ExistsInInstance_def Bex_def)
  show "ExistsInInstance mgr instanceID zoneID dynamicMapID =
      Some (\<exists>i < length (ZoneIDs instDef).
              ZoneIDs instDef ! i = zoneID \<and> inst_DynamicMapIDs instDef ! i = dynamicMapID)"
    if "dynamicMapID \<noteq> 0 \<and> length (ZoneIDs instDef) = length (inst_DynamicMapIDs instDef)"
    using exists_loop_pair [OF idx, of dynamicMapID zoneID] inst that
    by (simp add: ExistsInInstance_def Bex_def)
qed

theorem ExistsInInstance_wildcard_witness:
  "GetZoneInstanceData
     (example_manager\<lparr>mZoneInstanceData := [7 \<mapsto> example_instance]\<rparr>) 8 = None \<and>
   ExistsInInstance
     (example_manager\<lparr>mZoneInstanceData := [7 \<mapsto> example_instance]\<rparr>) 8 20 2 = Some False \<and>
   GetZoneInstanceData
     (example_manager\<lparr>mZoneInstanceData := [7 \<mapsto> example_instance]\<rparr>) 7
     = Some example_instance \<and>
   ExistsInInstance
     (example_manager\<lparr>mZoneInstanceData := [7 \<mapsto> example_instance]\<rparr>) 7 20 0 = Some True \<and>
   ExistsInInstance
     (example_manager\<lparr>mZoneInstanceData := [7 \<mapsto> example_instance]\<rparr>) 7 20 2 = Some True \<and>
   ExistsInInstance
     (example_manager\<lparr>mZoneInstanceData := [7 \<mapsto> example_instance]\<rparr>) 7 20 3 = Some False"
proof -
  let ?m = "example_manager\<lparr>mZoneInstanceData := [7 \<mapsto> example_instance]\<rparr>"
  have n: "GetZoneInstanceData ?m 8 = None"
    by (simp add: GetZoneInstanceData_def)
  have s: "GetZoneInstanceData ?m 7 = Some example_instance"
    by (simp add: GetZoneInstanceData_def)
  have l: "(2::u32) \<noteq> 0 \<and>
      length (ZoneIDs example_instance) = length (inst_DynamicMapIDs example_instance)"
    "(3::u32) \<noteq> 0 \<and>
      length (ZoneIDs example_instance) = length (inst_DynamicMapIDs example_instance)"
    by (simp_all add: example_instance_def)
  have a: "ExistsInInstance ?m 8 20 2 = Some False"
    using ExistsInInstance_wildcard [of ?m 8 20 2] n by blast
  have b: "ExistsInInstance ?m 7 20 0 =
      Some (\<exists>i < length (ZoneIDs example_instance). ZoneIDs example_instance ! i = 20)"
    using ExistsInInstance_wildcard [of ?m 7 20 2] s by blast
  have c: "ExistsInInstance ?m 7 20 2 =
      Some (\<exists>i < length (ZoneIDs example_instance).
        ZoneIDs example_instance ! i = 20 \<and> inst_DynamicMapIDs example_instance ! i = 2)"
    using ExistsInInstance_wildcard [of ?m 7 20 2] s l(1) by blast
  have d: "ExistsInInstance ?m 7 20 3 =
      Some (\<exists>i < length (ZoneIDs example_instance).
        ZoneIDs example_instance ! i = 20 \<and> inst_DynamicMapIDs example_instance ! i = 3)"
    using ExistsInInstance_wildcard [of ?m 7 20 3] s l(2) by blast
  have e: "ExistsInInstance ?m 7 20 0 = Some True" "ExistsInInstance ?m 7 20 2 = Some True"
    "ExistsInInstance ?m 7 20 3 = Some False"
    by code_simp+
  show ?thesis using n s a b c d e by (simp only: simp_thms)
qed

lemma zones_resolve_loop_iff:
  "set idx \<subseteq> {..<length (ZoneIDs inst)} \<Longrightarrow>
   length (ZoneIDs inst) = length (inst_DynamicMapIDs inst) \<Longrightarrow>
   zones_resolve_loop mgr inst idx =
     (\<forall>i \<in> set idx. zone_registered mgr (ZoneIDs inst ! i) (inst_DynamicMapIDs inst ! i))"
  by (induction idx) (auto simp: GetAt_def)

lemma zones_resolve_all:
  "length (ZoneIDs inst) = length (inst_DynamicMapIDs inst) \<Longrightarrow>
   zones_resolve_loop mgr inst [0..<length (ZoneIDs inst)] = pairs_resolve mgr inst"
proof -
  assume len: "length (ZoneIDs inst) = length (inst_DynamicMapIDs inst)"
  have "set [0..<length (ZoneIDs inst)] \<subseteq> {..<length (ZoneIDs inst)}" by auto
  from zones_resolve_loop_iff [OF this len, of mgr]
  show ?thesis by (auto simp: pairs_resolve_def)
qed

lemma lobby_unknown_case:
  "(case definitionManager of Some dm \<Rightarrow> dm_ZoneType dm (LobbyID inst) = None
      | None \<Rightarrow> False) = lobby_unknown definitionManager inst"
  by (cases definitionManager) (simp_all add: lobby_unknown_def)

lemma LoadObject_ServerZoneInstance_eq:
  "LoadObject_ServerZoneInstance mgr (Some inst) definitionManager =
     (if lobby_unknown definitionManager inst then (True, mgr)
      else if length (ZoneIDs inst) \<noteq> length (inst_DynamicMapIDs inst) then (False, mgr)
      else if \<not> pairs_resolve mgr inst then (False, mgr)
      else if mZoneInstanceData mgr (inst_ID inst) \<noteq> None then (False, mgr)
      else (True, mgr\<lparr>mZoneInstanceData := (mZoneInstanceData mgr)(inst_ID inst \<mapsto> inst)\<rparr>))"
proof (cases "length (ZoneIDs inst) = length (inst_DynamicMapIDs inst)")
  case True
  then show ?thesis
    using zones_resolve_all [OF True, of mgr]
    by (simp add: LoadObject_ServerZoneInstance_def lobby_unknown_case Let_def)
next
  case False
  then show ?thesis
    by (simp add: LoadObject_ServerZoneInstance_def lobby_unknown_case Let_def)
qed

text \<open>
  C9, amended. A zone instance whose lobby zone the given definition manager does not
  know is skipped: the load returns true and registers nothing, whatever its sequences
  are. Otherwise the load returns true only if the zone ID and dynamic map ID sequences
  are of equal length and every index-aligned pair is a registered zone; with a length
  mismatch or an unresolvable pair it returns false and leaves the manager as it was.
  In every case the manager's instances change only when both conditions hold.
\<close>

theorem LoadObject_ServerZoneInstance_parallel:
  "(lobby_unknown definitionManager inst \<longrightarrow>
      LoadObject_ServerZoneInstance mgr (Some inst) definitionManager = (True, mgr)) \<and>
   (\<not> lobby_unknown definitionManager inst \<and>
    fst (LoadObject_ServerZoneInstance mgr (Some inst) definitionManager) \<longrightarrow>
      length (ZoneIDs inst) = length (inst_DynamicMapIDs inst) \<and> pairs_resolve mgr inst) \<and>
   (\<not> lobby_unknown definitionManager inst \<and>
    (length (ZoneIDs inst) \<noteq> length (inst_DynamicMapIDs inst) \<or> \<not> pairs_resolve mgr inst) \<longrightarrow>
      LoadObject_ServerZoneInstance mgr (Some inst) definitionManager = (False, mgr)) \<and>
   (mZoneInstanceData (snd (LoadObject_ServerZoneInstance mgr (Some inst) definitionManager))
      \<noteq> mZoneInstanceData mgr \<longrightarrow>
      length (ZoneIDs inst) = length (inst_DynamicMapIDs inst) \<and> pairs_resolve mgr inst \<and>
      mZoneInstanceData (snd (LoadObject_ServerZoneInstance mgr (Some inst) definitionManager))
        (inst_ID inst) = Some inst) \<and>
   LoadObject_ServerZoneInstance mgr None definitionManager = (False, mgr)"
proof (intro conjI)
  show "LoadObject_ServerZoneInstance mgr None definitionManager = (False, mgr)"
    by (simp add: LoadObject_ServerZoneInstance_def)
qed (auto simp: LoadObject_ServerZoneInstance_eq split: if_splits)

theorem LoadObject_ServerZoneInstance_parallel_witness:
  "lobby_unknown (Some no_definitions) mismatched_instance \<and>
   LoadObject_ServerZoneInstance three_zones_manager (Some mismatched_instance)
     (Some no_definitions) = (True, three_zones_manager) \<and>
   \<not> lobby_unknown None example_instance \<and>
   fst (LoadObject_ServerZoneInstance three_zones_manager (Some example_instance) None) \<and>
   length (ZoneIDs example_instance) = length (inst_DynamicMapIDs example_instance) \<and>
   pairs_resolve three_zones_manager example_instance \<and>
   \<not> lobby_unknown None mismatched_instance \<and>
   length (ZoneIDs mismatched_instance) \<noteq> length (inst_DynamicMapIDs mismatched_instance) \<and>
   LoadObject_ServerZoneInstance three_zones_manager (Some mismatched_instance) None
     = (False, three_zones_manager) \<and>
   mZoneInstanceData
     (snd (LoadObject_ServerZoneInstance three_zones_manager (Some example_instance) None))
     \<noteq> mZoneInstanceData three_zones_manager \<and>
   mZoneInstanceData
     (snd (LoadObject_ServerZoneInstance three_zones_manager (Some example_instance) None))
     (inst_ID example_instance) = Some example_instance"
proof -
  note skip = LoadObject_ServerZoneInstance_parallel
    [of "Some no_definitions" mismatched_instance three_zones_manager]
  note good = LoadObject_ServerZoneInstance_parallel
    [of None example_instance three_zones_manager]
  note bad = LoadObject_ServerZoneInstance_parallel
    [of None mismatched_instance three_zones_manager]
  have u: "lobby_unknown (Some no_definitions) mismatched_instance"
    by (simp add: lobby_unknown_def no_definitions_def)
  have k: "\<not> lobby_unknown None example_instance" "\<not> lobby_unknown None mismatched_instance"
    by (simp_all add: lobby_unknown_def)
  have ok: "fst (LoadObject_ServerZoneInstance three_zones_manager (Some example_instance) None)"
    by code_simp
  have m: "length (ZoneIDs mismatched_instance) \<noteq> length (inst_DynamicMapIDs mismatched_instance)"
    by (simp add: mismatched_instance_def)
  have reg: "mZoneInstanceData
      (snd (LoadObject_ServerZoneInstance three_zones_manager (Some example_instance) None))
      (inst_ID example_instance) \<noteq> mZoneInstanceData three_zones_manager (inst_ID example_instance)"
    by code_simp
  then have ch: "mZoneInstanceData
      (snd (LoadObject_ServerZoneInstance three_zones_manager (Some example_instance) None))
      \<noteq> mZoneInstanceData three_zones_manager"
    by metis
  show ?thesis
    using skip good bad u k ok m ch by blast
qed

theorem LoadObject_ServerZoneInstance_skip_counterexample:
  "fst (LoadObject_ServerZoneInstance three_zones_manager (Some mismatched_instance)
          (Some no_definitions)) = True \<and>
   length (ZoneIDs mismatched_instance) = 3 \<and>
   length (inst_DynamicMapIDs mismatched_instance) = 2"
  by (simp add: LoadObject_ServerZoneInstance_def mismatched_instance_def no_definitions_def)
section \<open>Properties of the static merge of a partial\<close>












section \<open>Properties of the composition of a zone\<close>

lemma fcard_pos_iff: "(0 < fcard s) = (s \<noteq> {||})"
  by (cases "s = {||}") (auto simp: fcard_0_eq [symmetric] simp del: fcard_0_eq)

lemma gather_extra_eq:
  "gather_extra mgr zone A p = (if eligible_extra mgr zone p then finsert p A else A)"
  by (auto simp: gather_extra_def eligible_extra_def split: option.splits)

lemma foldl_gather:
  "foldl (gather_extra mgr zone) A xs =
     A |\<union>| ffilter (eligible_extra mgr zone) (fset_of_list xs)"
  by (induction xs arbitrary: A) (auto simp: gather_extra_eq)

lemma gather_partialIDs_eq:
  "gather_partialIDs mgr zone extras =
     auto_partialIDs mgr zone |\<union>| ffilter (eligible_extra mgr zone) extras"
  by (simp add: gather_partialIDs_def auto_partialIDs_def foldl_gather)

lemma gather_partialIDs_skip:
  "\<not> eligible_extra mgr zone p \<Longrightarrow>
   gather_partialIDs mgr zone (finsert p extras) = gather_partialIDs mgr zone extras"
  by (auto simp: gather_partialIDs_eq)

lemma ApplyZonePartial_frame:
  "ApplyZonePartial mgr h (Some z) p = (ok, h') \<Longrightarrow>
   next_free h' = next_free h \<and> (\<forall>a. a \<noteq> z \<longrightarrow> objs h' a = objs h a)"
  by (auto simp: ApplyZonePartial_def Let_def split: if_splits option.splits)

lemma apply_partials_frame:
  "apply_partials mgr h z ps = Some h' \<Longrightarrow>
   next_free h' = next_free h \<and> (\<forall>a. a \<noteq> z \<longrightarrow> objs h' a = objs h a)"
proof (induction ps arbitrary: h)
  case Nil
  then show ?case by simp
next
  case (Cons p ps)
  obtain ok h1 where a: "ApplyZonePartial mgr h (Some z) p = (ok, h1)"
    by (cases "ApplyZonePartial mgr h (Some z) p")
  with Cons.prems have ok: "ok" and r: "apply_partials mgr h1 z ps = Some h'"
    by (auto split: bool.splits)
  from Cons.IH [OF r] ApplyZonePartial_frame [OF a] show ?case by simp
qed

lemma GetZoneData_frame:
  "a < next_free h \<Longrightarrow>
   objs (snd (GetZoneData mgr h id' dyn ap extras)) a = objs h a"
  by (auto simp: GetZoneData_def Let_def make_shared_def
      split: option.splits dest!: apply_partials_frame)

lemma GetZoneData_next_free:
  "next_free h \<le> next_free (snd (GetZoneData mgr h id' dyn ap extras))"
  by (auto simp: GetZoneData_def Let_def make_shared_def
      split: option.splits dest!: apply_partials_frame)

lemma GetZoneData_identity:
  "find_zone mgr id' dyn = Some zone \<Longrightarrow>
   gather_partialIDs mgr (objs h zone) extras = {||} \<Longrightarrow>
   GetZoneData mgr h id' dyn ap extras = (Some zone, h)"
  by (simp add: GetZoneData_def fcard_pos_iff)

lemma ApplyZonePartial_True:
  "ApplyZonePartial mgr h (Some z) p = (True, h') \<Longrightarrow>
   \<exists>prt. GetZonePartialData mgr p = Some prt \<and>
     objs h' z = ApplyZonePartial_static (objs h z) prt True"
  by (auto simp: ApplyZonePartial_def Let_def split: if_splits option.splits)

lemma apply_partials_Some:
  "apply_partials mgr h z ids = Some h' \<Longrightarrow>
   \<exists>ps. map (GetZonePartialData mgr) ids = map Some ps \<and>
     objs h' z = foldl (\<lambda>zone prt. ApplyZonePartial_static zone prt True) (objs h z) ps"
proof (induction ids arbitrary: h)
  case Nil
  then show ?case by simp
next
  case (Cons p ids)
  obtain ok h1 where a: "ApplyZonePartial mgr h (Some z) p = (ok, h1)"
    by (cases "ApplyZonePartial mgr h (Some z) p")
  with Cons.prems have ok: "ok" and r: "apply_partials mgr h1 z ids = Some h'"
    by (auto split: bool.splits)
  from a ok have a': "ApplyZonePartial mgr h (Some z) p = (True, h1)" by simp
  from ApplyZonePartial_True [OF a'] obtain prt where
    prt: "GetZonePartialData mgr p = Some prt"
    "objs h1 z = ApplyZonePartial_static (objs h z) prt True"
    by blast
  from Cons.IH [OF r] obtain ps where ps: "map (GetZonePartialData mgr) ids = map Some ps"
    "objs h' z = foldl (\<lambda>zone prt. ApplyZonePartial_static zone prt True) (objs h1 z) ps"
    by blast
  show ?case
    by (rule exI [of _ "prt # ps"]) (simp add: prt ps)
qed

lemma map_of_foldl_SetEntry:
  "map_of (foldl (\<lambda>m p. SetEntry (fst p) (snd p) m) m0 xs) = map_of m0 ++ map_of (rev xs)"
proof (induction xs arbitrary: m0)
  case Nil
  then show ?case by simp
next
  case (Cons x xs)
  have "map_of (foldl (\<lambda>m p. SetEntry (fst p) (snd p) m) m0 (x # xs)) =
      map_of (SetEntry (fst x) (snd x) m0) ++ map_of (rev xs)"
    by (simp only: foldl_Cons Cons)
  also have "\<dots> = map_of m0 ++ map_of (rev (x # xs))"
    by (cases x)
      (auto simp: SetEntry_def update_conv' map_add_def fun_eq_iff split: option.splits)
  finally show ?case .
qed

lemma Spots_static:
  "map_of (Spots (ApplyZonePartial_static zone prt b)) =
     map_of (Spots zone) ++ map_of (rev (prt_Spots prt))"
  by (simp add: ApplyZonePartial_static_def map_of_foldl_SetEntry)

lemma Spots_sg_fold: "Spots (fst (foldl sg_round st xs)) = Spots (fst st)"
  by (induction xs arbitrary: st) (auto simp: sg_round_def Let_def)

lemma Spots_slg_fold: "Spots (fst (foldl (slg_round r) st xs)) = Spots (fst st)"
  by (induction xs arbitrary: st) (auto simp: slg_round_def Let_def)

lemma Spots_remove_sg_fold:
  "Spots (foldl (\<lambda>zone r. zone\<lparr>SpawnGroups := RemoveEntry r (SpawnGroups zone)\<rparr>) z xs)
     = Spots z"
  by (induction xs arbitrary: z) auto

lemma Spots_remove_slg_fold:
  "Spots (foldl (\<lambda>zone r.
        zone\<lparr>SpawnLocationGroups := RemoveEntry r (SpawnLocationGroups zone)\<rparr>) z xs)
     = Spots z"
  by (induction xs arbitrary: z) auto

lemma Spots_validate_spawns: "Spots (validate_spawns z) = Spots z"
  by (simp add: validate_spawns_def Let_def Spots_remove_slg_fold Spots_slg_fold
      Spots_remove_sg_fold Spots_sg_fold)

lemma map_of_rev_key: "(map_of (rev xs) k = None) = (map_of xs k = None)"
  by (simp add: map_of_eq_None_iff)

lemma highest_wins:
  "sorted ids \<Longrightarrow> map (GetZonePartialData mgr) ids = map Some ps \<Longrightarrow>
   p \<in> set ids \<Longrightarrow> GetZonePartialData mgr p = Some prt \<Longrightarrow>
   KeyExists k (prt_Spots prt) \<Longrightarrow>
   (\<And>q prt'. q \<in> set ids \<Longrightarrow> GetZonePartialData mgr q = Some prt' \<Longrightarrow>
      KeyExists k (prt_Spots prt') \<Longrightarrow> q \<le> p) \<Longrightarrow>
   map_of (Spots (foldl (\<lambda>zone prt. ApplyZonePartial_static zone prt True) z ps)) k =
     map_of (rev (prt_Spots prt)) k"
proof (induction ids arbitrary: ps rule: rev_induct)
  case Nil
  then show ?case by simp
next
  case (snoc i ids)
  from snoc.prems(2) obtain ps' pi where ps: "ps = ps' @ [pi]"
    "map (GetZonePartialData mgr) ids = map Some ps'" "GetZonePartialData mgr i = Some pi"
    by (cases ps rule: rev_cases) auto
  have sorted: "sorted ids" "\<And>q. q \<in> set ids \<Longrightarrow> q \<le> i"
    using snoc.prems(1) by (auto simp: sorted_append)
  show ?case
  proof (cases "KeyExists k (prt_Spots pi)")
    case True
    then have "i \<le> p" using snoc.prems(6) [of i pi] ps(3) by simp
    moreover have "p \<le> i" using snoc.prems(3) sorted(2) by auto
    ultimately have "p = i" by simp
    then have "prt = pi" using snoc.prems(4) ps(3) by simp
    moreover from True obtain v where "map_of (rev (prt_Spots pi)) k = Some v"
      using map_of_rev_key [of "prt_Spots pi" k] by (auto simp: KeyExists_def)
    ultimately show ?thesis
      by (simp add: ps(1) Spots_static map_add_def)
  next
    case False
    then have "p \<noteq> i" using snoc.prems(4,5) ps(3) by auto
    then have pin: "p \<in> set ids" using snoc.prems(3) by simp
    have "map_of (Spots (foldl (\<lambda>zone prt. ApplyZonePartial_static zone prt True) z ps')) k =
        map_of (rev (prt_Spots prt)) k"
      using snoc.IH [OF sorted(1) ps(2) pin snoc.prems(4,5)] snoc.prems(6) by simp
    moreover from False have "map_of (rev (prt_Spots pi)) k = None"
      using map_of_rev_key [of "prt_Spots pi" k] by (simp add: KeyExists_def)
    ultimately show ?thesis
      by (simp add: ps(1) Spots_static map_add_def)
  qed
qed

lemma sorted_list_of_fset_sorted: "sorted (sorted_list_of_fset S)"
  by (simp add: sorted_list_of_fset.rep_eq)

lemma sorted_list_of_fset_distinct: "distinct (sorted_list_of_fset S)"
  by (simp add: sorted_list_of_fset.rep_eq)

lemma map_of_rev_distinct:
  "distinct (map fst xs) \<Longrightarrow> map_of (rev xs) = map_of xs"
  by (rule map_of_inject_set [THEN iffD2]) (simp_all add: rev_map [symmetric])

text \<open>
  C5. When GetZoneData composes a zone from a non-empty set of partial IDs (the
  auto-applied ones of the zone's dynamic map ID and the eligible extra ones), the
  composed zone is the copy of the stored zone with the partials applied one after the
  other in ascending order of their IDs, and then repaired. The set, and with it the
  order, depends on the supplied extra IDs only as a set. For a spot key that several
  of the applied partials define, the composed zone has the spot of the partial with the
  highest ID among them.
\<close>

theorem GetZoneData_ascending_order:
  assumes "find_zone mgr id' dynamicMapID = Some zone"
    and "GetZoneData mgr h id' dynamicMapID True extraPartialIDs = (Some copy, h')"
    and "partialIDs = auto_partialIDs mgr (objs h zone) |\<union>|
           ffilter (eligible_extra mgr (objs h zone)) extraPartialIDs"
    and "partialIDs \<noteq> {||}"
  shows "(\<exists>ids ps. sorted ids \<and> distinct ids \<and> fset_of_list ids = partialIDs \<and>
            map (GetZonePartialData mgr) ids = map Some ps \<and>
            objs h' copy =
              validate_spawns
                (foldl (\<lambda>z prt. ApplyZonePartial_static z prt True) (objs h zone) ps)) \<and>
         (\<forall>p prt k.
            p |\<in>| partialIDs \<and> GetZonePartialData mgr p = Some prt \<and>
            KeyExists k (prt_Spots prt) \<and> distinct (map fst (prt_Spots prt)) \<and>
            (\<forall>q prt'. q |\<in>| partialIDs \<and> GetZonePartialData mgr q = Some prt' \<and>
               KeyExists k (prt_Spots prt') \<longrightarrow> q \<le> p) \<longrightarrow>
            map_of (Spots (objs h' copy)) k = map_of (prt_Spots prt) k)"
proof -
  have g: "gather_partialIDs mgr (objs h zone) extraPartialIDs = partialIDs"
    using assms(3) by (simp add: gather_partialIDs_eq)
  obtain h2 where h2: "apply_partials mgr (snd (make_shared h (objs h zone)))
        (fst (make_shared h (objs h zone))) (sorted_list_of_fset partialIDs) = Some h2"
      and copy: "copy = fst (make_shared h (objs h zone))"
      and h': "h' = h2\<lparr>objs := (objs h2)(copy := validate_spawns (objs h2 copy))\<rparr>"
    using assms(1,2,4) g
    by (auto simp: GetZoneData_def fcard_pos_iff split: prod.splits option.splits)
  from apply_partials_Some [OF h2] obtain ps where
    ps: "map (GetZonePartialData mgr) (sorted_list_of_fset partialIDs) = map Some ps"
    "objs h2 copy = foldl (\<lambda>z prt. ApplyZonePartial_static z prt True) (objs h zone) ps"
    by (auto simp: copy make_shared_def)
  have res: "objs h' copy =
      validate_spawns (foldl (\<lambda>z prt. ApplyZonePartial_static z prt True) (objs h zone) ps)"
    by (simp add: h' ps(2))
  have first: "\<exists>ids ps. sorted ids \<and> distinct ids \<and> fset_of_list ids = partialIDs \<and>
      map (GetZonePartialData mgr) ids = map Some ps \<and>
      objs h' copy =
        validate_spawns (foldl (\<lambda>z prt. ApplyZonePartial_static z prt True) (objs h zone) ps)"
    using ps(1) res sorted_list_of_fset_sorted [of partialIDs]
      sorted_list_of_fset_distinct [of partialIDs]
    by (intro exI [of _ "sorted_list_of_fset partialIDs"] exI [of _ ps]) simp
  have second: "map_of (Spots (objs h' copy)) k = map_of (prt_Spots prt) k"
    if "p |\<in>| partialIDs \<and> GetZonePartialData mgr p = Some prt \<and>
        KeyExists k (prt_Spots prt) \<and> distinct (map fst (prt_Spots prt)) \<and>
        (\<forall>q prt'. q |\<in>| partialIDs \<and> GetZonePartialData mgr q = Some prt' \<and>
           KeyExists k (prt_Spots prt') \<longrightarrow> q \<le> p)"
    for p prt k
  proof -
    have "map_of (Spots (foldl (\<lambda>z prt. ApplyZonePartial_static z prt True) (objs h zone) ps)) k
        = map_of (rev (prt_Spots prt)) k"
      using that
      by (intro highest_wins [OF sorted_list_of_fset_sorted ps(1), of p]) auto
    then show ?thesis
      using that by (simp add: res Spots_validate_spawns map_of_rev_distinct)
  qed
  from first second show ?thesis by blast
qed

theorem GetZoneData_ascending_order_witness:
  "find_zone spots_manager 1 1 = Some 0 \<and>
   fst (GetZoneData spots_manager base_store 1 1 True {|7|}) = Some 1 \<and>
   auto_partialIDs spots_manager (objs base_store 0) |\<union>|
     ffilter (eligible_extra spots_manager (objs base_store 0)) {|7|} = {|7, 8|} \<and>
   {|7, 8 :: u32|} \<noteq> {||} \<and>
   GetZonePartialData spots_manager 8 = Some partial_8 \<and>
   KeyExists 5 (prt_Spots partial_8) \<and>
   KeyExists 5 (prt_Spots partial_7) \<and>
   map_of (Spots (objs (snd (GetZoneData spots_manager base_store 1 1 True {|7|})) 1)) 5
     = Some spot_b"
proof -
  let ?h' = "snd (GetZoneData spots_manager base_store 1 1 True {|7|})"
  have f: "find_zone spots_manager 1 1 = Some 0"
    by code_simp
  have r: "fst (GetZoneData spots_manager base_store 1 1 True {|7|}) = Some 1"
    by code_simp
  then have g: "GetZoneData spots_manager base_store 1 1 True {|7|} = (Some 1, ?h')"
    by (metis prod.collapse)
  have ge: "gather_partialIDs spots_manager (objs base_store 0) {|7|} = {|7, 8|}"
    by code_simp
  then have s: "{|7, 8|} = auto_partialIDs spots_manager (objs base_store 0) |\<union>|
      ffilter (eligible_extra spots_manager (objs base_store 0)) {|7|}"
    by (simp only: gather_partialIDs_eq)
  have ne: "{|7, 8 :: u32|} \<noteq> {||}"
    by simp
  have l: "GetZonePartialData spots_manager 8 = Some partial_8"
    "GetZonePartialData spots_manager 7 = Some partial_7"
    by (simp_all add: GetZonePartialData_def spots_manager_def)
  have k: "KeyExists 5 (prt_Spots partial_8)" "KeyExists 5 (prt_Spots partial_7)"
    "distinct (map fst (prt_Spots partial_8))"
    by (simp_all add: KeyExists_def partial_8_def partial_7_def)
  have le: "(7::u32) \<le> 8" by (simp add: word_le_nat_alt)
  have mx: "\<forall>q prt'. q |\<in>| {|7, 8|} \<and> GetZonePartialData spots_manager q = Some prt' \<and>
      KeyExists 5 (prt_Spots prt') \<longrightarrow> q \<le> 8"
    using le by auto
  note inst = GetZoneData_ascending_order [OF f g s ne]
  have w: "map_of (Spots (objs ?h' 1)) 5 = map_of (prt_Spots partial_8) 5"
    using inst l(1) k(1,3) mx by blast
  have v: "map_of (prt_Spots partial_8) 5 = Some spot_b"
    by (simp add: partial_8_def)
  show ?thesis
    using f r s ne l(1) k(1,2) w v by (simp only: simp_thms)
qed

text \<open>
  C4, amended. An extra partial ID that does not resolve to a stored partial is
  silently skipped, exactly like one that resolves but is not eligible: in both cases
  GetZoneData returns what it returns without that ID. The partial IDs that are applied
  are the auto-applied ones of the zone's dynamic map ID together with the eligible
  extra ones, where an extra ID is eligible when it resolves to a stored partial that
  is not auto-apply and is either unscoped or scoped to the zone's dynamic map ID.
\<close>

theorem GetZoneData_extra_partials:
  "gather_partialIDs mgr zone extraPartialIDs =
     auto_partialIDs mgr zone |\<union>| ffilter (eligible_extra mgr zone) extraPartialIDs \<and>
   (GetZonePartialData mgr partialID = None \<longrightarrow>
      GetZoneData mgr h id' dynamicMapID applyPartials (finsert partialID extraPartialIDs) =
      GetZoneData mgr h id' dynamicMapID applyPartials extraPartialIDs) \<and>
   (find_zone mgr id' dynamicMapID = Some z \<and> \<not> eligible_extra mgr (objs h z) partialID \<longrightarrow>
      GetZoneData mgr h id' dynamicMapID applyPartials (finsert partialID extraPartialIDs) =
      GetZoneData mgr h id' dynamicMapID applyPartials extraPartialIDs)"
proof (intro conjI impI)
  show "gather_partialIDs mgr zone extraPartialIDs =
      auto_partialIDs mgr zone |\<union>| ffilter (eligible_extra mgr zone) extraPartialIDs"
    by (rule gather_partialIDs_eq)
next
  assume "GetZonePartialData mgr partialID = None"
  then have "\<And>zone. \<not> eligible_extra mgr zone partialID"
    by (simp add: eligible_extra_def)
  then show "GetZoneData mgr h id' dynamicMapID applyPartials (finsert partialID extraPartialIDs)
      = GetZoneData mgr h id' dynamicMapID applyPartials extraPartialIDs"
    by (simp add: GetZoneData_def gather_partialIDs_skip split: option.splits)
next
  assume "find_zone mgr id' dynamicMapID = Some z \<and> \<not> eligible_extra mgr (objs h z) partialID"
  then show "GetZoneData mgr h id' dynamicMapID applyPartials (finsert partialID extraPartialIDs)
      = GetZoneData mgr h id' dynamicMapID applyPartials extraPartialIDs"
    by (simp add: GetZoneData_def gather_partialIDs_skip split: option.splits)
qed

theorem GetZoneData_extra_partials_witness:
  "GetZonePartialData spots_manager 99 = None \<and>
   GetZoneData spots_manager base_store 1 1 True (finsert 99 {|7|}) =
     GetZoneData spots_manager base_store 1 1 True {|7|} \<and>
   find_zone spots_manager 1 1 = Some 0 \<and>
   \<not> eligible_extra spots_manager (objs base_store 0) 8 \<and>
   GetZoneData spots_manager base_store 1 1 True (finsert 8 {||}) =
     GetZoneData spots_manager base_store 1 1 True {||} \<and>
   fst (GetZoneData spots_manager base_store 1 1 True {|99, 7|}) = Some 1"
proof -
  have n: "GetZonePartialData spots_manager 99 = None"
    by (simp add: GetZonePartialData_def spots_manager_def)
  have f: "find_zone spots_manager 1 1 = Some 0"
    by code_simp
  have e: "\<not> eligible_extra spots_manager (objs base_store 0) 8"
    by (simp add: eligible_extra_def GetZonePartialData_def spots_manager_def partial_8_def)
  have a: "GetZoneData spots_manager base_store 1 1 True (finsert 99 {|7|}) =
      GetZoneData spots_manager base_store 1 1 True {|7|}"
    using GetZoneData_extra_partials [where mgr = spots_manager and partialID = 99
        and h = base_store and id' = 1 and dynamicMapID = 1 and applyPartials = True
        and extraPartialIDs = "{|7|}"] n
    by blast
  have b: "GetZoneData spots_manager base_store 1 1 True (finsert 8 {||}) =
      GetZoneData spots_manager base_store 1 1 True {||}"
    using GetZoneData_extra_partials [where mgr = spots_manager and partialID = 8
        and h = base_store and id' = 1 and dynamicMapID = 1 and applyPartials = True
        and extraPartialIDs = "{||}" and z = 0] f e
    by blast
  have c: "fst (GetZoneData spots_manager base_store 1 1 True {|99, 7|}) = Some 1"
    by code_simp
  show ?thesis
    using n a f e b c by (simp only: simp_thms)
qed

theorem GetZoneData_unresolved_extra_counterexample:
  "GetZonePartialData partials_manager 99 = None \<and>
   fst (GetZoneData partials_manager base_store 1 1 True {|99|}) = Some 0"
  by code_simp

text \<open>
  C6. For a stored zone with no applicable partial (no auto-apply partial mapped to its
  dynamic map ID, no eligible extra partial ID supplied), GetZoneData with
  applyPartials = true returns the stored pointer itself and leaves the store as it
  was. Whatever the arguments of a call are, every zone object that existed before the
  call, so every zone the manager holds, has the value afterwards that it had before.
\<close>

theorem GetZoneData_stored_zone_untouched:
  "(find_zone mgr id' dynamicMapID = Some zone \<and>
    auto_partialIDs mgr (objs h zone) = {||} \<and>
    (\<forall>p. p |\<in>| extraPartialIDs \<longrightarrow> \<not> eligible_extra mgr (objs h zone) p) \<longrightarrow>
      GetZoneData mgr h id' dynamicMapID True extraPartialIDs = (Some zone, h)) \<and>
   (\<forall>a < next_free h.
      objs (snd (GetZoneData mgr h id' dynamicMapID applyPartials extraPartialIDs)) a
        = objs h a) \<and>
   (find_zone mgr id' dynamicMapID = Some zone \<and> zone < next_free h \<and>
    fst (GetZoneData mgr h id' dynamicMapID applyPartials extraPartialIDs) \<noteq> Some zone \<and>
    fst (GetZoneData mgr h id' dynamicMapID applyPartials extraPartialIDs) = Some copy \<longrightarrow>
      copy = next_free h)"
proof (intro conjI impI allI)
  assume a: "find_zone mgr id' dynamicMapID = Some zone \<and>
    auto_partialIDs mgr (objs h zone) = {||} \<and>
    (\<forall>p. p |\<in>| extraPartialIDs \<longrightarrow> \<not> eligible_extra mgr (objs h zone) p)"
  then have "gather_partialIDs mgr (objs h zone) extraPartialIDs = {||}"
    by (auto simp: gather_partialIDs_eq)
  with a show "GetZoneData mgr h id' dynamicMapID True extraPartialIDs = (Some zone, h)"
    by (simp add: GetZoneData_identity)
next
  fix a assume "a < next_free h"
  then show "objs (snd (GetZoneData mgr h id' dynamicMapID applyPartials extraPartialIDs)) a
      = objs h a"
    by (rule GetZoneData_frame)
next
  assume "find_zone mgr id' dynamicMapID = Some zone \<and> zone < next_free h \<and>
    fst (GetZoneData mgr h id' dynamicMapID applyPartials extraPartialIDs) \<noteq> Some zone \<and>
    fst (GetZoneData mgr h id' dynamicMapID applyPartials extraPartialIDs) = Some copy"
  then show "copy = next_free h"
    by (auto simp: GetZoneData_def Let_def make_shared_def split: if_splits option.splits)
qed

theorem GetZoneData_stored_zone_untouched_witness:
  "find_zone partials_manager 1 1 = Some 0 \<and>
   auto_partialIDs partials_manager (objs base_store 0) = {||} \<and>
   \<not> eligible_extra partials_manager (objs base_store 0) 99 \<and>
   GetZoneData partials_manager base_store 1 1 True {|99|} = (Some 0, base_store) \<and>
   (0::nat) < next_free base_store \<and>
   fst (GetZoneData partials_manager base_store 1 1 True {|5|}) = Some 1 \<and>
   objs (snd (GetZoneData partials_manager base_store 1 1 True {|5|})) 0 = objs base_store 0 \<and>
   SpawnGroups (objs (snd (GetZoneData partials_manager base_store 1 1 True {|5|})) 1)
     \<noteq> SpawnGroups (objs base_store 0)"
proof -
  have f: "find_zone partials_manager 1 1 = Some 0"
    by code_simp
  have au: "auto_partialIDs partials_manager (objs base_store 0) = {||}"
    by code_simp
  have e: "\<not> eligible_extra partials_manager (objs base_store 0) 99"
    by (simp add: eligible_extra_def GetZonePartialData_def partials_manager_def
        base_manager_def example_manager_def)
  then have e': "\<forall>p. p |\<in>| {|99|} \<longrightarrow> \<not> eligible_extra partials_manager (objs base_store 0) p"
    by simp
  have lt: "(0::nat) < next_free base_store"
    by (simp add: base_store_def)
  note inst1 = GetZoneData_stored_zone_untouched
    [of partials_manager 1 1 0 base_store "{|99|}" True]
  note inst2 = GetZoneData_stored_zone_untouched
    [of partials_manager 1 1 0 base_store "{|5|}" True]
  have a: "GetZoneData partials_manager base_store 1 1 True {|99|} = (Some 0, base_store)"
    using inst1 f au e' by blast
  have b: "objs (snd (GetZoneData partials_manager base_store 1 1 True {|5|})) 0
      = objs base_store 0"
    using inst2 lt by blast
  have c: "fst (GetZoneData partials_manager base_store 1 1 True {|5|}) = Some 1"
    "SpawnGroups (objs (snd (GetZoneData partials_manager base_store 1 1 True {|5|})) 1)
      \<noteq> SpawnGroups (objs base_store 0)"
    by code_simp+
  show ?thesis
    using f au e a lt c b by (simp only: simp_thms)
qed

text \<open>
  C1, evaluated. Zone 1 has the spawns 1 and 3. Partial 5 brings spawn group 10, which
  references the spawns 1, 2 and 3: after the composition the group still references
  all three, the missing spawn 2 included. Partial 6 brings spawn group 3 as well,
  whose only spawn is missing: group 3 is removed, and the copy of group 10 loses its
  reference to the existing spawn 3 (the ID of the removed group) and keeps the
  missing spawn 2.
\<close>

theorem GetZoneData_repair_strips_group_ids:
  "map fst (Spawns (objs (snd (GetZoneData partials_manager base_store 1 1 True {|5|})) 1))
     = [1, 3] \<and>
   SpawnGroups (objs (snd (GetZoneData partials_manager base_store 1 1 True {|5|})) 1)
     = [(10, group_10)] \<and>
   map fst (sg_Spawns group_10) = [1, 2, 3] \<and>
   map fst (Spawns (objs (snd (GetZoneData partials_manager base_store 1 1 True {|6|})) 1))
     = [1, 3] \<and>
   SpawnGroups (objs (snd (GetZoneData partials_manager base_store 1 1 True {|6|})) 1)
     = [(10, group_10\<lparr>sg_Spawns := [(1, 1), (2, 1)]\<rparr>)]"
  by code_simp

section \<open>Properties of the load pipeline\<close>














































end
